theory Spec2Isabelle
  imports
    Main
    "HOL-Library.Word"
    "HOL-Library.Char_ord"
    "HOL-Library.List_Lexorder"
    "HOL-Library.Signed_Division"
begin

section \<open>The environment of the file manager\<close>

text \<open>
  The file manager of \<^verbatim>\<open>libbeat/outputs/s3/file_manager.go\<close> talks to the operating
  system (package \<^verbatim>\<open>os\<close>), to the clock (package \<^verbatim>\<open>time\<close>) and to the S3 upload
  manager.  These are modelled as an explicit \<open>world\<close> that every operation takes and
  returns.  A Go call that can panic returns a value of type \<open>res\<close>; a Go \<^verbatim>\<open>error\<close>
  result is an \<open>error option\<close> (\<open>None\<close> is \<^verbatim>\<open>nil\<close>).  Calls to the logger change nothing
  that is modelled here and are left out, but the evaluation of their arguments is kept
  where it can panic.
\<close>

type_synonym path = string
type_synonym ino = nat

datatype errno = ENOENT | EACCES | EEXIST | EIO | ENOSPC | EFBIG | EINVAL

datatype error =
    PathError string path errno
  | LinkError string path path errno
  | ErrClosed
  | ErrInvalid
  | Errorf string
  | AwsError string

datatype 'a res = Return 'a | Panic

text \<open>
  A \<^verbatim>\<open>time.Time\<close> in UTC is the record of what its accessors \<^verbatim>\<open>Year\<close>, \<^verbatim>\<open>Month\<close>,
  \<^verbatim>\<open>Day\<close>, \<^verbatim>\<open>Hour\<close>, \<^verbatim>\<open>Minute\<close>, \<^verbatim>\<open>Second\<close> and \<^verbatim>\<open>Nanosecond\<close> return.
\<close>

record gotime =
  t_year :: int
  t_month :: int
  t_day :: int
  t_hour :: int
  t_minute :: int
  t_second :: int
  t_nanosecond :: int

definition valid_time :: "gotime \<Rightarrow> bool" where
  "valid_time t \<longleftrightarrow>
     1 \<le> t_month t \<and> t_month t \<le> 12 \<and> 1 \<le> t_day t \<and> t_day t \<le> 31 \<and>
     0 \<le> t_hour t \<and> t_hour t \<le> 23 \<and> 0 \<le> t_minute t \<and> t_minute t \<le> 59 \<and>
     0 \<le> t_second t \<and> t_second t \<le> 59 \<and>
     0 \<le> t_nanosecond t \<and> t_nanosecond t \<le> 999999999"

text \<open>Days since 1970-01-01 of a civil date (proleptic Gregorian calendar).\<close>

definition days_from_civil :: "int \<Rightarrow> int \<Rightarrow> int \<Rightarrow> int" where
  "days_from_civil y m d =
     (let y' = (if m \<le> 2 then y - 1 else y);
          era = y' div 400;
          yoe = y' - era * 400;
          doy = (153 * (if m > 2 then m - 3 else m + 9) + 2) div 5 + d - 1;
          doe = yoe * 365 + yoe div 4 - yoe div 100 + doy
      in era * 146097 + doe - 719468)"

definition unix_nanos :: "gotime \<Rightarrow> int" where
  "unix_nanos t =
     (((days_from_civil (t_year t) (t_month t) (t_day t) * 24 + t_hour t) * 60
        + t_minute t) * 60 + t_second t) * 1000000000 + t_nanosecond t"

text \<open>
  \<^verbatim>\<open>t.Sub(u).Nanoseconds()\<close>: the difference in nanoseconds, saturated to the range of
  \<^verbatim>\<open>int64\<close> as \<^verbatim>\<open>Time.Sub\<close> does.
\<close>

definition time_Sub :: "gotime \<Rightarrow> gotime \<Rightarrow> int" where
  "time_Sub t u =
     (let d = unix_nanos t - unix_nanos u
      in if d > 9223372036854775807 then 9223372036854775807
         else if d < - 9223372036854775808 then - 9223372036854775808
         else d)"

record inode =
  content :: string
  mtime :: gotime

datatype syscall =
    SysStat path
  | SysLstat path
  | SysRemove path
  | SysRename path path
  | SysCreate path
  | SysOpen path
  | SysWrite ino
  | SysClose ino
  | SysHostname
  | SysInterfaceAddrs
  | AwsNewSession
  | AwsUpload string string

record ipnet =
  ip_text :: string
  ip_loopback :: bool
  ip_is4 :: bool

datatype addr = IPNet ipnet | OtherAddr

datatype body = Gzip string

record s3object =
  o_bucket :: string
  o_key :: string
  o_body :: body

text \<open>
  The world: a directory (path to inode), the inodes, the clock, the host identity, the
  objects of the blob store, and the failures the environment injects: \<open>faults w c\<close> is
  the error that call \<open>c\<close> meets, if any.  A failing \<^verbatim>\<open>Write\<close> may still have written
  the first \<open>short_write\<close> bytes.
\<close>

record world =
  dir :: "path \<rightharpoonup> ino"
  inodes :: "ino \<Rightarrow> inode"
  next_ino :: ino
  clock :: gotime
  faults :: "syscall \<Rightarrow> errno option"
  short_write :: nat
  hostname :: string
  ifaddrs :: "addr list"
  s3_objects :: "s3object list"

text \<open>An open \<^verbatim>\<open>*os.File\<close>: the inode it refers to and whether it has been closed.\<close>

record handle =
  h_ino :: ino
  h_closed :: bool

subsection \<open>Package os\<close>

fun os_IsNotExist :: "error option \<Rightarrow> bool" where
  "os_IsNotExist (Some (PathError _ _ e)) = (e = ENOENT)"
| "os_IsNotExist (Some (LinkError _ _ _ e)) = (e = ENOENT)"
| "os_IsNotExist _ = False"

definition os_Stat :: "world \<Rightarrow> path \<Rightarrow> error + inode" where
  "os_Stat w p =
     (case faults w (SysStat p) of
        Some e \<Rightarrow> Inl (PathError ''stat'' p e)
      | None \<Rightarrow>
          (case dir w p of
             None \<Rightarrow> Inl (PathError ''stat'' p ENOENT)
           | Some i \<Rightarrow> Inr (inodes w i)))"

definition os_Lstat :: "world \<Rightarrow> path \<Rightarrow> error + inode" where
  "os_Lstat w p =
     (case faults w (SysLstat p) of
        Some e \<Rightarrow> Inl (PathError ''lstat'' p e)
      | None \<Rightarrow>
          (case dir w p of
             None \<Rightarrow> Inl (PathError ''lstat'' p ENOENT)
           | Some i \<Rightarrow> Inr (inodes w i)))"

definition os_Remove :: "world \<Rightarrow> path \<Rightarrow> error + world" where
  "os_Remove w p =
     (case faults w (SysRemove p) of
        Some e \<Rightarrow> Inl (PathError ''remove'' p e)
      | None \<Rightarrow>
          (case dir w p of
             None \<Rightarrow> Inl (PathError ''remove'' p ENOENT)
           | Some i \<Rightarrow> Inr (w\<lparr>dir := (dir w)(p := None)\<rparr>)))"

definition os_Rename :: "world \<Rightarrow> path \<Rightarrow> path \<Rightarrow> error + world" where
  "os_Rename w old new =
     (case faults w (SysRename old new) of
        Some e \<Rightarrow> Inl (LinkError ''rename'' old new e)
      | None \<Rightarrow>
          (case dir w old of
             None \<Rightarrow> Inl (LinkError ''rename'' old new ENOENT)
           | Some i \<Rightarrow> Inr (w\<lparr>dir := (dir w)(old := None, new \<mapsto> i)\<rparr>)))"

text \<open>
  \<^verbatim>\<open>os.Create\<close> truncates the file the path names, or makes a new, empty one; the
  handle it returns is open.
\<close>

definition os_Create :: "world \<Rightarrow> path \<Rightarrow> error + (handle \<times> world)" where
  "os_Create w p =
     (case faults w (SysCreate p) of
        Some e \<Rightarrow> Inl (PathError ''open'' p e)
      | None \<Rightarrow>
          (case dir w p of
             Some i \<Rightarrow>
               Inr (\<lparr>h_ino = i, h_closed = False\<rparr>,
                    w\<lparr>inodes := (inodes w)(i := \<lparr>content = [], mtime = clock w\<rparr>)\<rparr>)
           | None \<Rightarrow>
               Inr (\<lparr>h_ino = next_ino w, h_closed = False\<rparr>,
                    w\<lparr>dir := (dir w)(p \<mapsto> next_ino w),
                      inodes := (inodes w)(next_ino w := \<lparr>content = [], mtime = clock w\<rparr>),
                      next_ino := Suc (next_ino w)\<rparr>)))"

definition os_Open :: "world \<Rightarrow> path \<Rightarrow> error + handle" where
  "os_Open w p =
     (case faults w (SysOpen p) of
        Some e \<Rightarrow> Inl (PathError ''open'' p e)
      | None \<Rightarrow>
          (case dir w p of
             None \<Rightarrow> Inl (PathError ''open'' p ENOENT)
           | Some i \<Rightarrow> Inr \<lparr>h_ino = i, h_closed = False\<rparr>))"

text \<open>
  \<^verbatim>\<open>(*File).Close\<close>: a second close is an error; a close the system call fails still
  leaves the handle closed.
\<close>

definition file_Close :: "world \<Rightarrow> handle \<Rightarrow> error option \<times> handle" where
  "file_Close w h =
     (if h_closed h then (Some ErrClosed, h)
      else (case faults w (SysClose (h_ino h)) of
              Some e \<Rightarrow> (Some (PathError ''close'' [] e), h\<lparr>h_closed := True\<rparr>)
            | None \<Rightarrow> (None, h\<lparr>h_closed := True\<rparr>)))"

definition max_file_size :: nat where
  "max_file_size = 9223372036854775807"

definition append_bytes :: "world \<Rightarrow> ino \<Rightarrow> string \<Rightarrow> world" where
  "append_bytes w i b =
     w\<lparr>inodes := (inodes w)(i := \<lparr>content = content (inodes w i) @ b, mtime = clock w\<rparr>)\<rparr>"

text \<open>
  \<^verbatim>\<open>(*File).Write\<close> by the only writer of a file appends.  It returns a nil error only
  when every byte was written.  No file grows beyond the largest file offset.
\<close>

definition file_Write :: "world \<Rightarrow> handle \<Rightarrow> string \<Rightarrow> error option \<times> world" where
  "file_Write w h b =
     (if h_closed h then (Some ErrClosed, w)
      else (case faults w (SysWrite (h_ino h)) of
              Some e \<Rightarrow>
                (Some (PathError ''write'' [] e),
                 append_bytes w (h_ino h) (take (min (short_write w) (length b - 1)) b))
            | None \<Rightarrow>
                if length (content (inodes w (h_ino h))) + length b > max_file_size
                then (Some (PathError ''write'' [] EFBIG), w)
                else (None, append_bytes w (h_ino h) b)))"

section \<open>The file manager\<close>

definition managerMaxFiles :: int where
  "managerMaxFiles = 1024"

definition defaultKeepFiles :: int where
  "defaultKeepFiles = 7"

definition defaultUploadEveryBytes :: "64 word" where
  "defaultUploadEveryBytes = 10 * 1024 * 1024"

definition defaultUploadEverySeconds :: int where
  "defaultUploadEverySeconds = 0"

text \<open>
  The three configured thresholds are pointers in the source: \<open>None\<close> is the nil
  pointer, and reading through it panics.  \<open>last_file\<close> is the field \<^verbatim>\<open>last\<close>.
\<close>

record fileManager =
  Path :: string
  Name :: string
  Region :: string
  Bucket :: string
  UploadEveryBytes :: "64 word option"
  UploadEverySeconds :: "int option"
  KeepFiles :: "int option"
  current :: "handle option"
  current_size :: "64 word"
  last_file :: string

text \<open>Arithmetic on a Go \<^verbatim>\<open>int\<close> wraps around at 64 bits.\<close>

definition go_int :: "int \<Rightarrow> int" where
  "go_int x = (x + 9223372036854775808) mod 18446744073709551616 - 9223372036854775808"

subsection \<open>Generation namer\<close>

definition digit_char :: "nat \<Rightarrow> char" where
  "digit_char d = char_of (48 + d)"

fun digits :: "nat \<Rightarrow> string" where
  "digits n = (if n < 10 then [digit_char n] else digits (n div 10) @ [digit_char (n mod 10)])"

declare digits.simps [simp del]

definition Itoa :: "int \<Rightarrow> string" where
  "Itoa i = (if i < 0 then CHR ''-'' # digits (nat (- i)) else digits (nat i))"

text \<open>
  \<^verbatim>\<open>filepath.Join\<close> of two elements: empty elements are ignored, the others are joined
  by the separator.  The cleaning of the result (\<^verbatim>\<open>filepath.Clean\<close>) is not modelled:
  the directory and the file name are taken as they are configured.
\<close>

definition filepath_Join :: "string \<Rightarrow> string \<Rightarrow> string" where
  "filepath_Join a b = (if a = [] then b else if b = [] then a else a @ ''/'' @ b)"

definition filePath :: "('a fileManager_scheme) \<Rightarrow> int \<Rightarrow> path" where
  "filePath manager file_no =
     (if file_no = 0 then filepath_Join (Path manager) (Name manager)
      else filepath_Join (Path manager) (Name manager @ ''.'' @ Itoa file_no))"

definition fileExists :: "('a fileManager_scheme) \<Rightarrow> world \<Rightarrow> int \<Rightarrow> bool" where
  "fileExists manager w file_no =
     (case os_Stat w (filePath manager file_no) of
        Inl err \<Rightarrow> if os_IsNotExist (Some err) then False else True
      | Inr _ \<Rightarrow> True)"

subsection \<open>Configuration\<close>

definition checkIfConfigSane :: "fileManager \<Rightarrow> error option \<times> fileManager" where
  "checkIfConfigSane manager =
     (if length (Name manager) = 0
      then (Some (Errorf ''S3 logging requires a name for the file names''), manager)
      else if length (Bucket manager) = 0
      then (Some (Errorf ''S3 logging requires a bucket name''), manager)
      else
        let m1 = (if KeepFiles manager = None
                  then manager\<lparr>KeepFiles := Some defaultKeepFiles\<rparr> else manager);
            m2 = (if UploadEveryBytes m1 = None
                  then m1\<lparr>UploadEveryBytes := Some defaultUploadEveryBytes\<rparr> else m1);
            m3 = (if UploadEverySeconds m2 = None
                  then m2\<lparr>UploadEverySeconds := Some defaultUploadEverySeconds\<rparr> else m2)
        in if the (KeepFiles m3) < 2 \<or> the (KeepFiles m3) \<ge> managerMaxFiles
           then (Some (Errorf (''S3 number of files to keep should be between 2 and ''
                                 @ Itoa (managerMaxFiles - 1))), m3)
           else (None, m3))"

subsection \<open>Rotation policy\<close>

text \<open>
  \<^verbatim>\<open>os.Lstat\<close> returns a nil \<^verbatim>\<open>FileInfo\<close> with its error.  The source logs the error
  and goes on to call \<^verbatim>\<open>fileInfo.ModTime()\<close>, which panics on the nil interface.
  The division of the \<^verbatim>\<open>int64\<close> nanoseconds truncates towards zero.
\<close>

definition shouldRotate :: "fileManager \<Rightarrow> world \<Rightarrow> bool res" where
  "shouldRotate manager w =
     (if current manager = None then Return True
      else
        (case UploadEveryBytes manager of
           None \<Rightarrow> Panic
         | Some every_bytes \<Rightarrow>
             if current_size manager \<ge> every_bytes then Return True
             else
               (case UploadEverySeconds manager of
                  None \<Rightarrow> Panic
                | Some every_seconds \<Rightarrow>
                    if every_seconds > 0 then
                      (case os_Lstat w (filePath manager 1) of
                         Inl err \<Rightarrow> Panic
                       | Inr fileInfo \<Rightarrow>
                           let tMtime = mtime fileInfo;
                               tNow = clock w;
                               tDiff = time_Sub tNow tMtime sdiv 1000000000
                           in if tDiff \<ge> every_seconds then Return True else Return False)
                    else Return False)))"

subsection \<open>Key namer\<close>

fun first_ip4 :: "addr list \<Rightarrow> string" where
  "first_ip4 [] = []"
| "first_ip4 (IPNet n # as) =
     (if \<not> ip_loopback n \<and> ip_is4 n then ip_text n else first_ip4 as)"
| "first_ip4 (OtherAddr # as) = first_ip4 as"

definition localIP :: "world \<Rightarrow> string" where
  "localIP w = (case faults w SysInterfaceAddrs of Some e \<Rightarrow> [] | None \<Rightarrow> first_ip4 (ifaddrs w))"

text \<open>The host that \<^verbatim>\<open>s3KeyName\<close> resolves before it reads the clock.\<close>

definition resolved_host :: "world \<Rightarrow> string" where
  "resolved_host w =
     (let host = (case faults w SysHostname of Some e \<Rightarrow> [] | None \<Rightarrow> hostname w);
          host = (if host = [] \<or> host = ''localhost'' then localIP w else host)
      in if host = [] then ''localhost'' else host)"

text \<open>The verbs \<^verbatim>\<open>%d\<close> and \<^verbatim>\<open>%0wd\<close> of \<^verbatim>\<open>fmt.Sprintf\<close>; the sign counts in the width.\<close>

definition zero_pad :: "nat \<Rightarrow> string \<Rightarrow> string" where
  "zero_pad width s = replicate (width - length s) (CHR ''0'') @ s"

definition fmt_0d :: "nat \<Rightarrow> int \<Rightarrow> string" where
  "fmt_0d width i =
     (if i < 0 then CHR ''-'' # zero_pad (width - 1) (digits (nat (- i)))
      else zero_pad width (digits (nat i)))"

definition s3KeyName :: "world \<Rightarrow> string" where
  "s3KeyName w =
     (let host = resolved_host w;
          t = clock w;
          timeIso8601 =
            Itoa (t_year t) @ fmt_0d 2 (t_month t) @ fmt_0d 2 (t_day t) @ ''T''
            @ fmt_0d 2 (t_hour t) @ fmt_0d 2 (t_minute t) @ fmt_0d 2 (t_second t)
            @ ''.'' @ fmt_0d 9 (t_nanosecond t) @ ''Z''
      in ''/'' @ Itoa (t_year t) @ ''/'' @ fmt_0d 2 (t_month t) @ ''/'' @ fmt_0d 2 (t_day t)
         @ ''/'' @ host @ ''_'' @ timeIso8601)"

subsection \<open>Upload dispatcher\<close>

record upload_output =
  Location :: string

text \<open>
  \<^verbatim>\<open>Uploader.Upload\<close> of the S3 manager: on failure it returns a nil result with the
  error; on success the object is in the store and the result carries its location.
\<close>

definition uploader_Upload ::
  "world \<Rightarrow> string \<Rightarrow> string \<Rightarrow> body \<Rightarrow> (upload_output option \<times> error option) \<times> world" where
  "uploader_Upload w bucket key b =
     (case faults w (AwsUpload bucket key) of
        Some e \<Rightarrow> ((None, Some (AwsError ''upload'')), w)
      | None \<Rightarrow>
          ((Some \<lparr>Location = ''s3://'' @ bucket @ key\<rparr>, None),
           w\<lparr>s3_objects := s3_objects w @ [\<lparr>o_bucket = bucket, o_key = key, o_body = b\<rparr>]\<rparr>))"

text \<open>
  \<^verbatim>\<open>s3Upload\<close>: a file that cannot be opened is a nil \<^verbatim>\<open>*os.File\<close>, from which the
  compressing goroutine copies nothing.  After \<^verbatim>\<open>Upload\<close> the source logs
  \<^verbatim>\<open>result.Location\<close> whether or not there was an error.
\<close>

definition s3Upload :: "fileManager \<Rightarrow> world \<Rightarrow> (error option \<times> world) res" where
  "s3Upload manager w =
     (let data = (case os_Open w (last_file manager) of
                    Inl err \<Rightarrow> []
                  | Inr file \<Rightarrow> content (inodes w (h_ino file)))
      in case faults w AwsNewSession of
           Some e \<Rightarrow> Return (Some (AwsError ''session''), w)
         | None \<Rightarrow>
             let key = s3KeyName w @ ''.gz''
             in (case uploader_Upload w (Bucket manager) key (Gzip data) of
                   ((None, err), w') \<Rightarrow> Panic
                 | ((Some result, err), w') \<Rightarrow> Return (None, w')))"

subsection \<open>Ring rotator\<close>

function prune_loop :: "fileManager \<Rightarrow> world \<Rightarrow> int \<Rightarrow> error option \<times> world" where
  "prune_loop manager w file_no =
     (if file_no < managerMaxFiles then
        (if fileExists manager w file_no then
           (case os_Remove w (filePath manager file_no) of
              Inl perr \<Rightarrow> (Some perr, w)
            | Inr w' \<Rightarrow> prune_loop manager w' (file_no + 1))
         else prune_loop manager w (file_no + 1))
      else (None, w))"
  by pat_completeness auto
termination
  by (relation "measure (\<lambda>(manager, w, file_no). nat (managerMaxFiles - file_no))") auto

function shift_loop :: "fileManager \<Rightarrow> world \<Rightarrow> int \<Rightarrow> error option \<times> world" where
  "shift_loop manager w fileNo =
     (if fileNo \<ge> 0 then
        (if \<not> fileExists manager w fileNo then shift_loop manager w (fileNo - 1)
         else if fileExists manager w (go_int (fileNo + 1)) then
           (Some (Errorf (''S3 file '' @ filePath manager (go_int (fileNo + 1))
                            @ '' exists when rotating would overwrite it'')), w)
         else
           (case os_Rename w (filePath manager fileNo) (filePath manager (go_int (fileNo + 1))) of
              Inl err \<Rightarrow> (Some err, w)
            | Inr w' \<Rightarrow> shift_loop manager w' (fileNo - 1)))
      else (None, w))"
  by pat_completeness auto
termination
  by (relation "measure (\<lambda>(manager, w, fileNo). nat (fileNo + 1))") auto

declare prune_loop.simps [simp del] shift_loop.simps [simp del]

definition rotate :: "fileManager \<Rightarrow> world \<Rightarrow> (error option \<times> fileManager \<times> world) res" where
  "rotate manager w =
     (let (cerr, m1) =
            (case current manager of
               None \<Rightarrow> (None, manager)
             | Some h \<Rightarrow>
                 (case file_Close w h of (e, h') \<Rightarrow> (e, manager\<lparr>current := Some h'\<rparr>)))
      in case cerr of
           Some err \<Rightarrow> Return (Some err, m1, w)
         | None \<Rightarrow>
            (case KeepFiles m1 of
               None \<Rightarrow> Panic
             | Some keep \<Rightarrow>
                (case prune_loop m1 w keep of
                   (Some perr, w1) \<Rightarrow> Return (Some perr, m1, w1)
                 | (None, w1) \<Rightarrow>
                    (case shift_loop m1 w1 (go_int (keep - 1)) of
                       (Some err, w2) \<Rightarrow> Return (Some err, m1, w2)
                     | (None, w2) \<Rightarrow>
                        (case os_Create w2 (filePath m1 0) of
                           Inl err \<Rightarrow> Return (Some err, m1, w2)
                         | Inr (cur, w3) \<Rightarrow>
                            let m2 = m1\<lparr>current := Some cur, current_size := 0\<rparr>;
                                w4 = (case os_Remove w3 (filePath m2 keep) of
                                        Inl err \<Rightarrow> w3
                                      | Inr w' \<Rightarrow> w');
                                m3 = m2\<lparr>last_file := filePath m2 1\<rparr>
                            in (case s3Upload m3 w4 of
                                  Panic \<Rightarrow> Panic
                                | Return (uerr, w5) \<Rightarrow> Return (None, m3, w5)))))))"

subsection \<open>Appending a line\<close>

definition writeLine ::
  "fileManager \<Rightarrow> world \<Rightarrow> string \<Rightarrow> (error option \<times> fileManager \<times> world) res" where
  "writeLine manager w line =
     (case shouldRotate manager w of
        Panic \<Rightarrow> Panic
      | Return due \<Rightarrow>
          (case (if due then rotate manager w else Return (None, manager, w)) of
             Panic \<Rightarrow> Panic
           | Return (Some err, m1, w1) \<Rightarrow> Return (Some err, m1, w1)
           | Return (None, m1, w1) \<Rightarrow>
               let line = line @ [CHR 0x0A]
               in (case current m1 of
                     None \<Rightarrow> Return (Some ErrInvalid, m1, w1)
                   | Some cur \<Rightarrow>
                       (case file_Write w1 cur line of
                          (Some err, w2) \<Rightarrow> Return (Some err, m1, w2)
                        | (None, w2) \<Rightarrow>
                            Return (None,
                                    m1\<lparr>current_size := current_size m1 + of_nat (length line)\<rparr>,
                                    w2)))))"

subsection \<open>The writer\<close>

text \<open>
  The caller of \<^verbatim>\<open>writeLine\<close> is not part of the file; a sequence of appends is the
  loop that hands the lines to \<^verbatim>\<open>writeLine\<close> one after the other and stops at the first
  error.
\<close>

fun writeLines ::
  "fileManager \<Rightarrow> world \<Rightarrow> string list \<Rightarrow> (error option \<times> fileManager \<times> world) res" where
  "writeLines manager w [] = Return (None, manager, w)"
| "writeLines manager w (line # lines) =
     (case writeLine manager w line of
        Panic \<Rightarrow> Panic
      | Return (Some err, m1, w1) \<Rightarrow> Return (Some err, m1, w1)
      | Return (None, m1, w1) \<Rightarrow> writeLines m1 w1 lines)"

text \<open>
  What a sequence of appends is observed by: the bytes of the live file, the bytes appended
  since the last append that rotated (starting from \<open>acc\<close>), and for each append whether
  \<^verbatim>\<open>shouldRotate\<close> asked for a rotation.
\<close>

definition live_bytes :: "fileManager \<Rightarrow> world \<Rightarrow> string" where
  "live_bytes manager w =
     (case current manager of None \<Rightarrow> [] | Some cur \<Rightarrow> content (inodes w (h_ino cur)))"

fun since_rotation :: "fileManager \<Rightarrow> world \<Rightarrow> string list \<Rightarrow> string \<Rightarrow> string" where
  "since_rotation manager w [] acc = acc"
| "since_rotation manager w (line # lines) acc =
     (case shouldRotate manager w of
        Panic \<Rightarrow> acc
      | Return due \<Rightarrow>
          (case writeLine manager w line of
             Return (None, m1, w1) \<Rightarrow>
               since_rotation m1 w1 lines ((if due then [] else acc) @ line @ [CHR 0x0A])
           | _ \<Rightarrow> acc))"

fun rotations :: "fileManager \<Rightarrow> world \<Rightarrow> string list \<Rightarrow> bool list" where
  "rotations manager w [] = []"
| "rotations manager w (line # lines) =
     (case shouldRotate manager w of
        Panic \<Rightarrow> []
      | Return due \<Rightarrow>
          due # (case writeLine manager w line of
                   Return (None, m1, w1) \<Rightarrow> rotations m1 w1 lines
                 | _ \<Rightarrow> []))"

text \<open>
  The second half of \<^verbatim>\<open>writeLine\<close> on its own (the lines after the rotation check): the
  line is appended to the live file as it is, and the counter is advanced.  A run of it is
  a sequence of appends in which no rotation takes place.
\<close>

definition append_line ::
  "fileManager \<Rightarrow> world \<Rightarrow> string \<Rightarrow> (error option \<times> fileManager \<times> world) res" where
  "append_line m1 w1 line =
     (let line = line @ [CHR 0x0A]
      in (case current m1 of
            None \<Rightarrow> Return (Some ErrInvalid, m1, w1)
          | Some cur \<Rightarrow>
              (case file_Write w1 cur line of
                 (Some err, w2) \<Rightarrow> Return (Some err, m1, w2)
               | (None, w2) \<Rightarrow>
                   Return (None,
                           m1\<lparr>current_size := current_size m1 + of_nat (length line)\<rparr>,
                           w2))))"

fun appends_plain ::
  "fileManager \<Rightarrow> world \<Rightarrow> string list \<Rightarrow> (error option \<times> fileManager \<times> world) res" where
  "appends_plain manager w [] = Return (None, manager, w)"
| "appends_plain manager w (line # lines) =
     (case append_line manager w line of
        Panic \<Rightarrow> Panic
      | Return (Some err, m1, w1) \<Rightarrow> Return (Some err, m1, w1)
      | Return (None, m1, w1) \<Rightarrow> appends_plain m1 w1 lines)"

section \<open>Auxiliary notions for the proofs\<close>

text \<open>The live file is open, holds \<open>acc\<close>, and the counter is its length.\<close>

definition tracked :: "fileManager \<Rightarrow> world \<Rightarrow> string \<Rightarrow> bool" where
  "tracked manager w acc \<longleftrightarrow>
     current manager \<noteq> None \<and> live_bytes manager w = acc
     \<and> unat (current_size manager) = length acc \<and> length acc \<le> max_file_size"


text \<open>Decimal digits and the number a digit string denotes.\<close>

definition is_digit :: "char \<Rightarrow> bool" where
  "is_digit c \<longleftrightarrow> (\<exists>d<10. c = digit_char d)"

definition undigits :: "string \<Rightarrow> nat" where
  "undigits s = foldl (\<lambda>a c. 10 * a + (of_char c - 48)) 0 s"

text \<open>
  A world in which no call meets an injected failure, and one in which no call on the
  file system that the rotation makes does.
\<close>

definition fault_free :: "world \<Rightarrow> bool" where
  "fault_free w \<longleftrightarrow> faults w = (\<lambda>c. None)"

definition fs_ok :: "world \<Rightarrow> bool" where
  "fs_ok w \<longleftrightarrow>
     (\<forall>p. faults w (SysStat p) = None \<and> faults w (SysRemove p) = None
          \<and> faults w (SysCreate p) = None)
     \<and> (\<forall>p q. faults w (SysRename p q) = None)
     \<and> (\<forall>i. faults w (SysClose i) = None)"

text \<open>The directory once every slot from \<open>n\<close> up to the bound has been removed.\<close>

definition pruned :: "fileManager \<Rightarrow> (path \<rightharpoonup> ino) \<Rightarrow> int \<Rightarrow> (path \<rightharpoonup> ino)" where
  "pruned m d n =
     (\<lambda>p. if \<exists>k. n \<le> k \<and> k < managerMaxFiles \<and> p = filePath m k then None else d p)"

text \<open>The directory once the shift loop has run from slot \<open>n\<close> down to slot 0.\<close>

function shifted :: "fileManager \<Rightarrow> (path \<rightharpoonup> ino) \<Rightarrow> int \<Rightarrow> (path \<rightharpoonup> ino)" where
  "shifted m d n =
     (if n \<ge> 0 then
        shifted m (case d (filePath m n) of
                     None \<Rightarrow> d
                   | Some i \<Rightarrow> d(filePath m n := None, filePath m (n + 1) \<mapsto> i)) (n - 1)
      else d)"
  by pat_completeness auto
termination
  by (relation "measure (\<lambda>(m, d, n). nat (n + 1))") auto

declare shifted.simps [simp del]

text \<open>
  A world in which the status of the path \<open>p\<close> cannot be read (the call fails, and not
  with "does not exist") and no other call on the file system that the rotation makes
  before it creates the new file fails.
\<close>

definition unreadable :: "world \<Rightarrow> path \<Rightarrow> bool" where
  "unreadable w p \<longleftrightarrow>
     (\<exists>e. faults w (SysStat p) = Some e \<and> e \<noteq> ENOENT)
     \<and> (\<forall>q. q \<noteq> p \<longrightarrow> faults w (SysStat q) = None)
     \<and> (\<forall>q. faults w (SysRemove q) = None)
     \<and> (\<forall>q r. faults w (SysRename q r) = None)
     \<and> (\<forall>i. faults w (SysClose i) = None)"

text \<open>
  The manager as \<^verbatim>\<open>rotate\<close> returns it when it fails after the first step (the live
  file, if any, has been closed), and the error of the shift loop for an occupied slot.
\<close>

definition closed_manager :: "fileManager \<Rightarrow> fileManager" where
  "closed_manager m =
     (case current m of None \<Rightarrow> m | Some h \<Rightarrow> m\<lparr>current := Some (h\<lparr>h_closed := True\<rparr>)\<rparr>)"

definition conflict_error :: "fileManager \<Rightarrow> int \<Rightarrow> error" where
  "conflict_error m n =
     Errorf (''S3 file '' @ filePath m n @ '' exists when rotating would overwrite it'')"

text \<open>The directory, the world and the blob store after a rotation that met no failure.\<close>

definition rotated_dir :: "fileManager \<Rightarrow> (path \<rightharpoonup> ino) \<Rightarrow> int \<Rightarrow> ino \<Rightarrow> (path \<rightharpoonup> ino)" where
  "rotated_dir m d keep i =
     ((shifted m (pruned m d keep) (keep - 1))(filePath m 0 \<mapsto> i))(filePath m keep := None)"

definition rotated_world :: "fileManager \<Rightarrow> world \<Rightarrow> int \<Rightarrow> world" where
  "rotated_world m w keep =
     w\<lparr>dir := rotated_dir m (dir w) keep (next_ino w),
       inodes := (inodes w)(next_ino w := \<lparr>content = [], mtime = clock w\<rparr>),
       next_ino := Suc (next_ino w)\<rparr>"

definition uploaded :: "fileManager \<Rightarrow> world \<Rightarrow> world" where
  "uploaded m w =
     w\<lparr>s3_objects := s3_objects w @
        [\<lparr>o_bucket = Bucket m, o_key = s3KeyName w @ ''.gz'',
          o_body = Gzip (case dir w (last_file m) of None \<Rightarrow> []
                         | Some i \<Rightarrow> content (inodes w i))\<rparr>]\<rparr>"

section \<open>Example inputs\<close>

text \<open>
  A manager that keeps three files and rotates at 100 bytes, an empty directory, and a
  directory with files at the slots 0 to 4.
\<close>

definition ex_time :: gotime where
  "ex_time = \<lparr>t_year = 2016, t_month = 3, t_day = 7, t_hour = 9, t_minute = 5,
               t_second = 1, t_nanosecond = 42\<rparr>"

definition ex_world :: world where
  "ex_world =
     \<lparr>dir = Map.empty, inodes = (\<lambda>i. \<lparr>content = [], mtime = ex_time\<rparr>), next_ino = 5,
      clock = ex_time, faults = (\<lambda>c. None), short_write = 0, hostname = ''web1'',
      ifaddrs = [], s3_objects = []\<rparr>"

definition ex_manager :: fileManager where
  "ex_manager =
     \<lparr>Path = ''/var/log/s3'', Name = ''beat'', Region = ''eu-west-1'', Bucket = ''logs'',
      UploadEveryBytes = Some 100, UploadEverySeconds = Some 0, KeepFiles = Some 3,
      current = None, current_size = 0, last_file = []\<rparr>"

definition ex_ring :: "path \<rightharpoonup> ino" where
  "ex_ring =
     [''/var/log/s3/beat'' \<mapsto> 0, ''/var/log/s3/beat.1'' \<mapsto> 1, ''/var/log/s3/beat.2'' \<mapsto> 2,
      ''/var/log/s3/beat.3'' \<mapsto> 3, ''/var/log/s3/beat.4'' \<mapsto> 4]"

definition ex_open :: handle where
  "ex_open = \<lparr>h_ino = 0, h_closed = False\<rparr>"

text \<open>
  The directory with five files; a world where the status of one path cannot be read; a
  world whose blob store rejects every upload; a manager with an open live file and a time
  threshold of one second.
\<close>

definition ex_world5 :: world where
  "ex_world5 = ex_world\<lparr>dir := ex_ring\<rparr>"

definition ex_denied :: world where
  "ex_denied =
     ex_world\<lparr>faults := (\<lambda>c. if c = SysStat ''/var/log/s3/beat.1023'' then Some EACCES else None)\<rparr>"

definition ex_reject :: world where
  "ex_reject =
     ex_world5\<lparr>faults := (\<lambda>c. case c of AwsUpload b k \<Rightarrow> Some EIO | _ \<Rightarrow> None)\<rparr>"

definition ex_timed :: fileManager where
  "ex_timed = ex_manager\<lparr>UploadEverySeconds := Some 1, current := Some ex_open\<rparr>"

text \<open>
  A directory with files at the slots 0 and 1 where the status of slot 1 cannot be read,
  and the same directory once slot 1 has been renamed to slot 2.
\<close>

definition ex_stuck :: world where
  "ex_stuck =
     ex_world\<lparr>dir := [''/var/log/s3/beat'' \<mapsto> 0, ''/var/log/s3/beat.1'' \<mapsto> 1],
              faults := (\<lambda>c. if c = SysStat ''/var/log/s3/beat.1'' then Some EACCES else None)\<rparr>"

definition ex_shifted :: world where
  "ex_shifted =
     ex_stuck\<lparr>dir := (dir ex_stuck)(''/var/log/s3/beat.1'' := None, ''/var/log/s3/beat.2'' \<mapsto> 1)\<rparr>"


text \<open>The manager and the world after the first rotation in the empty directory.\<close>

definition ex_live :: fileManager where
  "ex_live =
     ex_manager\<lparr>current := Some \<lparr>h_ino = 5, h_closed = False\<rparr>,
                current_size := 0, last_file := ''/var/log/s3/beat.1''\<rparr>"

definition ex_rotated :: world where
  "ex_rotated =
     uploaded (ex_manager\<lparr>last_file := ''/var/log/s3/beat.1''\<rparr>)
              (rotated_world ex_manager ex_world 3)"

text \<open>
  The manager and the world after two more lines (6 and 101 bytes) have been appended, and
  after the rotation that follows.
\<close>

definition ex_crossed_m :: fileManager where
  "ex_crossed_m = ex_live\<lparr>current_size := 107\<rparr>"

definition ex_crossed_w :: world where
  "ex_crossed_w =
     append_bytes (append_bytes ex_rotated 5 (''hello'' @ [CHR 0x0A])) 5
                  (replicate 100 (CHR ''x'') @ [CHR 0x0A])"

definition ex_again_m :: fileManager where
  "ex_again_m =
     ex_crossed_m\<lparr>current := Some \<lparr>h_ino = 6, h_closed = False\<rparr>,
                  current_size := 0, last_file := ''/var/log/s3/beat.1''\<rparr>"

definition ex_again_w :: world where
  "ex_again_w =
     uploaded (ex_crossed_m\<lparr>last_file := ''/var/log/s3/beat.1''\<rparr>)
              (rotated_world ex_crossed_m ex_crossed_w 3)"


section \<open>Properties of the generation namer\<close>

lemma of_char_digit_char: "d < 10 \<Longrightarrow> (of_char (digit_char d) :: nat) = 48 + d"
  by (simp add: digit_char_def)

lemma digit_char_inj: "a < 10 \<Longrightarrow> b < 10 \<Longrightarrow> digit_char a = digit_char b \<Longrightarrow> a = b"
  by (metis of_char_digit_char add_left_cancel)

lemma is_digit_digit_char: "d < 10 \<Longrightarrow> is_digit (digit_char d)"
  by (auto simp: is_digit_def)

lemma is_digit_range: "is_digit c \<Longrightarrow> 48 \<le> (of_char c :: nat) \<and> (of_char c :: nat) < 58"
  by (auto simp: is_digit_def of_char_digit_char)

lemma not_digit_minus: "\<not> is_digit (CHR ''-'')"
  using is_digit_range [of "CHR ''-''"] by auto

lemma not_digit_slash: "\<not> is_digit (CHR ''/'')"
  using is_digit_range [of "CHR ''/''"] by auto

lemma digits_all_digit: "\<forall>c\<in>set (digits n). is_digit c"
proof (induction n rule: digits.induct)
  case (1 n)
  show ?case
  proof (cases "n < 10")
    case True
    then show ?thesis by (simp add: digits.simps [of n] is_digit_digit_char)
  next
    case False
    with 1 show ?thesis by (simp add: digits.simps [of n] is_digit_digit_char)
  qed
qed

lemma digits_nonempty: "digits n \<noteq> []"
  by (subst digits.simps) simp

lemma undigits_snoc: "undigits (s @ [c]) = 10 * undigits s + (of_char c - 48)"
  by (simp add: undigits_def)

lemma undigits_digits: "undigits (digits n) = n"
proof (induction n rule: digits.induct)
  case (1 n)
  show ?case
  proof (cases "n < 10")
    case True
    then show ?thesis
      by (simp add: digits.simps [of n] undigits_def of_char_digit_char)
  next
    case False
    with 1 have "undigits (digits (n div 10)) = n div 10" by simp
    with False show ?thesis
      by (simp add: digits.simps [of n] undigits_snoc of_char_digit_char)
  qed
qed

lemma digits_inj: "digits a = digits b \<Longrightarrow> a = b"
  by (metis undigits_digits)

lemma Itoa_inj: "Itoa i = Itoa j \<Longrightarrow> i = j"
proof -
  assume eq: "Itoa i = Itoa j"
  have hd_digit: "\<And>n. hd (digits n) \<noteq> CHR ''-''"
    using digits_all_digit digits_nonempty not_digit_minus by (metis hd_in_set)
  have ne: "\<And>n. digits n \<noteq> CHR ''-'' # t" for t
    using hd_digit by (metis list.sel(1))
  show ?thesis
  proof (cases "i < 0"; cases "j < 0")
    assume "i < 0" "j < 0"
    with eq have "digits (nat (- i)) = digits (nat (- j))" by (simp add: Itoa_def)
    then have "nat (- i) = nat (- j)" by (rule digits_inj)
    with \<open>i < 0\<close> \<open>j < 0\<close> show ?thesis by simp
  next
    assume "i < 0" "\<not> j < 0"
    with eq ne show ?thesis by (simp add: Itoa_def) metis
  next
    assume "\<not> i < 0" "j < 0"
    with eq ne show ?thesis by (simp add: Itoa_def)
  next
    assume "\<not> i < 0" "\<not> j < 0"
    with eq have "digits (nat i) = digits (nat j)" by (simp add: Itoa_def)
    then have "nat i = nat j" by (rule digits_inj)
    with \<open>\<not> i < 0\<close> \<open>\<not> j < 0\<close> show ?thesis by simp
  qed
qed

lemma Itoa_nonempty: "Itoa i \<noteq> []"
  by (simp add: Itoa_def digits_nonempty)

lemma filePath_inj: "filePath m i = filePath m j \<longleftrightarrow> i = j"
proof
  assume eq: "filePath m i = filePath m j"
  have len: "\<And>a b c. length (filepath_Join a (b @ ''.'' @ c)) > length (filepath_Join a b)"
    by (auto simp: filepath_Join_def)
  have joininj: "\<And>a b c. filepath_Join a (b @ ''.'' @ c) = filepath_Join a (b @ ''.'' @ c') \<Longrightarrow> c = c'" for c'
    by (auto simp: filepath_Join_def split: if_splits)
  show "i = j"
  proof (cases "i = 0"; cases "j = 0")
    assume "i = 0" "j \<noteq> 0"
    with eq len [of "Path m" "Name m" "Itoa j"] show ?thesis by (simp add: filePath_def)
  next
    assume "i \<noteq> 0" "j = 0"
    with eq len [of "Path m" "Name m" "Itoa i"] show ?thesis by (simp add: filePath_def)
  next
    assume "i \<noteq> 0" "j \<noteq> 0"
    with eq have "Itoa i = Itoa j" using joininj by (simp add: filePath_def)
    then show ?thesis by (rule Itoa_inj)
  qed simp
qed simp


section \<open>The loops of the rotation on a world without failures\<close>

lemma fault_free_fs_ok: "fault_free w \<Longrightarrow> fs_ok w"
  by (simp add: fault_free_def fs_ok_def)

lemma fileExists_fs_ok:
  "fs_ok w \<Longrightarrow> fileExists m w n \<longleftrightarrow> dir w (filePath m n) \<noteq> None"
  by (auto simp: fs_ok_def fileExists_def os_Stat_def split: option.splits)

lemma fs_ok_dir_update [simp]: "fs_ok (w\<lparr>dir := d\<rparr>) = fs_ok w"
  by (simp add: fs_ok_def)

lemma os_Remove_fs_ok:
  "fs_ok w \<Longrightarrow> dir w p = Some i \<Longrightarrow> os_Remove w p = Inr (w\<lparr>dir := (dir w)(p := None)\<rparr>)"
  by (simp add: fs_ok_def os_Remove_def)

lemma pruned_step_absent:
  "d (filePath m n) = None \<Longrightarrow> pruned m d (n + 1) = pruned m d n"
proof (rule ext)
  fix p
  assume a: "d (filePath m n) = None"
  show "pruned m d (n + 1) p = pruned m d n p"
  proof (cases "p = filePath m n")
    case True
    with a show ?thesis by (auto simp: pruned_def)
  next
    case False
    have "(\<exists>k. n + 1 \<le> k \<and> k < managerMaxFiles \<and> p = filePath m k)
           = (\<exists>k. n \<le> k \<and> k < managerMaxFiles \<and> p = filePath m k)"
      using False by (metis add1_zle_eq order_le_less)
    then show ?thesis by (simp add: pruned_def)
  qed
qed

lemma pruned_step_present:
  "n < managerMaxFiles \<Longrightarrow> pruned m (d(filePath m n := None)) (n + 1) = pruned m d n"
proof (rule ext)
  fix p
  assume lt: "n < managerMaxFiles"
  show "pruned m (d(filePath m n := None)) (n + 1) p = pruned m d n p"
  proof (cases "p = filePath m n")
    case True
    with lt show ?thesis by (auto simp: pruned_def)
  next
    case False
    have "(\<exists>k. n + 1 \<le> k \<and> k < managerMaxFiles \<and> p = filePath m k)
           = (\<exists>k. n \<le> k \<and> k < managerMaxFiles \<and> p = filePath m k)"
      using False by (metis add1_zle_eq order_le_less)
    with False show ?thesis by (simp only: pruned_def fun_upd_apply if_False)
  qed
qed

lemma pruned_done: "\<not> n < managerMaxFiles \<Longrightarrow> pruned m d n = d"
  by (rule ext) (auto simp: pruned_def)

lemma prune_loop_fs_ok:
  "fs_ok w \<Longrightarrow> prune_loop m w n = (None, w\<lparr>dir := pruned m (dir w) n\<rparr>)"
proof (induction m w n rule: prune_loop.induct)
  case (1 m w n)
  show ?case
  proof (cases "n < managerMaxFiles")
    case False
    then show ?thesis by (simp add: prune_loop.simps [of m w n] pruned_done)
  next
    case lt: True
    show ?thesis
    proof (cases "dir w (filePath m n)")
      case None
      with lt "1.prems" have ex: "\<not> fileExists m w n" by (simp add: fileExists_fs_ok)
      from "1.IH"(2) [OF lt ex "1.prems"] lt ex None show ?thesis
        by (simp add: prune_loop.simps [of m w n] pruned_step_absent)
    next
      case (Some i)
      with lt "1.prems" have ex: "fileExists m w n" by (simp add: fileExists_fs_ok)
      have rm: "os_Remove w (filePath m n) = Inr (w\<lparr>dir := (dir w)(filePath m n := None)\<rparr>)"
        using "1.prems" Some by (rule os_Remove_fs_ok)
      let ?D = "(dir w)(filePath m n := None)"
      have ih: "prune_loop m (w\<lparr>dir := ?D\<rparr>) (n + 1) = (None, w\<lparr>dir := pruned m ?D (n + 1)\<rparr>)"
        using "1.IH"(1) [OF lt ex rm] "1.prems" by (simp add: fun_upd_def)
      have "prune_loop m w n = prune_loop m (w\<lparr>dir := ?D\<rparr>) (n + 1)"
        using lt ex rm by (simp add: prune_loop.simps [of m w n])
      then show ?thesis
        by (simp only: ih pruned_step_present [OF lt])
    qed
  qed
qed

lemma shifted_neg: "n < 0 \<Longrightarrow> shifted m d n = d"
  by (subst shifted.simps) simp

lemma go_int_id:
  "- 9223372036854775808 \<le> x \<Longrightarrow> x < 9223372036854775808 \<Longrightarrow> go_int x = x"
  by (simp add: go_int_def)

lemma os_Rename_fs_ok:
  "fs_ok w \<Longrightarrow> dir w old = Some i \<Longrightarrow>
   os_Rename w old new = Inr (w\<lparr>dir := (dir w)(old := None, new \<mapsto> i)\<rparr>)"
  by (simp add: fs_ok_def os_Rename_def)

lemma shift_loop_fs_ok:
  "fs_ok w \<Longrightarrow> n < managerMaxFiles \<Longrightarrow> dir w (filePath m (n + 1)) = None \<Longrightarrow>
   shift_loop m w n = (None, w\<lparr>dir := shifted m (dir w) n\<rparr>)"
proof (induction m w n rule: shift_loop.induct)
  case (1 m w n)
  show ?case
  proof (cases "n \<ge> 0")
    case False
    then show ?thesis
      by (simp add: shift_loop.simps [of m w n] shifted.simps [of m "dir w" n])
  next
    case ge: True
    from ge "1.prems"(2) have gi: "go_int (n + 1) = n + 1"
      by (intro go_int_id) (simp_all add: managerMaxFiles_def)
    from "1.prems" have nex1: "\<not> fileExists m w (n + 1)"
      by (simp add: fileExists_fs_ok)
    have lt': "n - 1 < managerMaxFiles" using "1.prems"(2) by simp
    show ?thesis
    proof (cases "dir w (filePath m n)")
      case None
      with "1.prems" have nex: "\<not> fileExists m w n" by (simp add: fileExists_fs_ok)
      have "shift_loop m w (n - 1) = (None, w\<lparr>dir := shifted m (dir w) (n - 1)\<rparr>)"
        using "1.IH"(1) [OF ge nex "1.prems"(1) lt'] None by simp
      with ge nex None show ?thesis
        by (simp add: shift_loop.simps [of m w n] shifted.simps [of m "dir w" n])
    next
      case (Some i)
      with "1.prems" have ex: "fileExists m w n" by (simp add: fileExists_fs_ok)
      let ?D = "(dir w)(filePath m n := None, filePath m (n + 1) \<mapsto> i)"
      have rn: "os_Rename w (filePath m n) (filePath m (go_int (n + 1))) = Inr (w\<lparr>dir := ?D\<rparr>)"
        using "1.prems"(1) Some gi by (simp add: os_Rename_fs_ok)
      have ex': "\<not> \<not> fileExists m w n" using ex by simp
      have nex1': "\<not> fileExists m w (go_int (n + 1))" using nex1 gi by simp
      have dn: "?D (filePath m (n - 1 + 1)) = None"
        by (simp add: filePath_inj)
      have ih: "shift_loop m (w\<lparr>dir := ?D\<rparr>) (n - 1)
                  = (None, w\<lparr>dir := shifted m ?D (n - 1)\<rparr>)"
        using "1.IH"(2) [OF ge ex' nex1' rn _ lt'] "1.prems"(1) dn by (simp add: fun_upd_def)
      have "shift_loop m w n = shift_loop m (w\<lparr>dir := ?D\<rparr>) (n - 1)"
        using ge ex nex1' rn by (simp add: shift_loop.simps [of m w n])
      moreover have "shifted m (dir w) n = shifted m ?D (n - 1)"
        using ge Some by (simp add: shifted.simps [of m "dir w" n])
      ultimately show ?thesis by (simp only: ih)
    qed
  qed
qed

lemma shifted_other:
  "(\<forall>k. 0 \<le> k \<and> k \<le> n + 1 \<longrightarrow> p \<noteq> filePath m k) \<Longrightarrow> shifted m d n p = d p"
proof (induction m d n rule: shifted.induct)
  case (1 m d n)
  show ?case
  proof (cases "n \<ge> 0")
    case False
    then show ?thesis by (simp add: shifted.simps [of m d n])
  next
    case True
    let ?d' = "case d (filePath m n) of None \<Rightarrow> d
               | Some i \<Rightarrow> d(filePath m n := None, filePath m (n + 1) \<mapsto> i)"
    have pn: "p \<noteq> filePath m n" "p \<noteq> filePath m (n + 1)" using "1.prems" True by auto
    have "shifted m ?d' (n - 1) p = ?d' p"
      using "1.IH" [OF True] "1.prems" by simp
    also have "?d' p = d p" using pn by (simp split: option.splits)
    finally show ?thesis using True by (simp add: shifted.simps [of m d n])
  qed
qed

lemma shifted_above: "n + 1 < k \<Longrightarrow> shifted m d n (filePath m k) = d (filePath m k)"
  by (rule shifted_other) (auto simp: filePath_inj)

lemma shifted_slot:
  "d (filePath m (n + 1)) = None \<Longrightarrow> 0 \<le> k \<Longrightarrow> k \<le> n \<Longrightarrow>
   shifted m d n (filePath m (k + 1)) = d (filePath m k)"
proof (induction m d n rule: shifted.induct)
  case (1 m d n)
  from "1.prems" have ge: "n \<ge> 0" by simp
  let ?d' = "case d (filePath m n) of None \<Rightarrow> d
             | Some i \<Rightarrow> d(filePath m n := None, filePath m (n + 1) \<mapsto> i)"
  have unf: "shifted m d n = shifted m ?d' (n - 1)"
    using ge by (simp add: shifted.simps [of m d n])
  have d'n: "?d' (filePath m (n - 1 + 1)) = None"
    by (simp add: filePath_inj split: option.splits)
  show ?case
  proof (cases "k = n")
    case True
    have "shifted m ?d' (n - 1) (filePath m (n + 1)) = ?d' (filePath m (n + 1))"
      by (rule shifted_above) simp
    also have "\<dots> = d (filePath m n)"
      using "1.prems"(1) by (simp add: filePath_inj split: option.splits)
    finally show ?thesis using True unf by simp
  next
    case False
    with "1.prems" have kn: "k \<le> n - 1" by simp
    have "shifted m ?d' (n - 1) (filePath m (k + 1)) = ?d' (filePath m k)"
      using "1.IH" [OF ge d'n "1.prems"(2) kn] .
    also have "\<dots> = d (filePath m k)"
      using False kn by (simp add: filePath_inj split: option.splits)
    finally show ?thesis using unf by simp
  qed
qed

lemma shifted_zero:
  "d (filePath m (n + 1)) = None \<Longrightarrow> 0 \<le> n \<Longrightarrow> shifted m d n (filePath m 0) = None"
proof (induction m d n rule: shifted.induct)
  case (1 m d n)
  let ?d' = "case d (filePath m n) of None \<Rightarrow> d
             | Some i \<Rightarrow> d(filePath m n := None, filePath m (n + 1) \<mapsto> i)"
  have unf: "shifted m d n = shifted m ?d' (n - 1)"
    using "1.prems" by (simp add: shifted.simps [of m d n])
  have d'n: "?d' (filePath m (n - 1 + 1)) = None"
    by (simp add: filePath_inj split: option.splits)
  show ?case
  proof (cases "n = 0")
    case True
    have "shifted m ?d' (n - 1) = ?d'" by (rule shifted_neg) (simp add: True)
    with unf d'n True show ?thesis by simp
  next
    case False
    with "1.prems" have "0 \<le> n - 1" by simp
    from "1.IH" [OF "1.prems"(2) d'n this] unf show ?thesis by simp
  qed
qed

lemma filePath_same_name:
  "Path m' = Path m \<Longrightarrow> Name m' = Name m \<Longrightarrow> filePath m' = filePath m"
  by (rule ext) (simp add: filePath_def)

lemma filePath_updates [simp]:
  "filePath (m\<lparr>current := c\<rparr>) = filePath m"
  "filePath (m\<lparr>current_size := s\<rparr>) = filePath m"
  "filePath (m\<lparr>last_file := l\<rparr>) = filePath m"
  by (simp_all add: fun_eq_iff filePath_def)

lemma fileExists_same_name:
  "filePath m' = filePath m \<Longrightarrow> fileExists m' w n = fileExists m w n"
  by (simp add: fileExists_def)

lemma prune_loop_same_name:
  "filePath m' = filePath m \<Longrightarrow> prune_loop m' w n = prune_loop m w n"
proof (induction m w n rule: prune_loop.induct)
  case (1 m w n)
  note fe = fileExists_same_name [OF "1.prems"]
  show ?case
  proof (cases "n < managerMaxFiles")
    case False
    then show ?thesis by (simp add: prune_loop.simps [of _ w n])
  next
    case True
    show ?thesis
    proof (cases "fileExists m w n")
      case False
      with True "1.IH"(2) "1.prems" fe show ?thesis
        by (simp add: prune_loop.simps [of _ w n])
    next
      case ex: True
      show ?thesis
      proof (cases "os_Remove w (filePath m n)")
        case (Inl e)
        with True ex "1.prems" fe show ?thesis by (simp add: prune_loop.simps [of _ w n])
      next
        case (Inr w')
        with True ex "1.IH"(1) [OF True ex Inr] "1.prems" fe show ?thesis
          by (simp add: prune_loop.simps [of _ w n])
      qed
    qed
  qed
qed

lemma shift_loop_same_name:
  "filePath m' = filePath m \<Longrightarrow> shift_loop m' w n = shift_loop m w n"
proof (induction m w n rule: shift_loop.induct)
  case (1 m w n)
  note fe = fileExists_same_name [OF "1.prems"]
  show ?case
  proof (cases "n \<ge> 0")
    case False
    then show ?thesis by (simp add: shift_loop.simps [of _ w n])
  next
    case True
    show ?thesis
    proof (cases "fileExists m w n")
      case False
      with True "1.IH"(1) "1.prems" fe show ?thesis
        by (simp add: shift_loop.simps [of _ w n])
    next
      case ex: True
      show ?thesis
      proof (cases "fileExists m w (go_int (n + 1))")
        case True
        with \<open>n \<ge> 0\<close> ex "1.prems" fe show ?thesis by (simp add: shift_loop.simps [of _ w n])
      next
        case nex: False
        show ?thesis
        proof (cases "os_Rename w (filePath m n) (filePath m (go_int (n + 1)))")
          case (Inl e)
          with \<open>n \<ge> 0\<close> ex nex "1.prems" fe show ?thesis
            by (simp add: shift_loop.simps [of _ w n])
        next
          case (Inr w')
          have "shift_loop m' w' (n - 1) = shift_loop m w' (n - 1)"
            using "1.IH"(2) [OF \<open>n \<ge> 0\<close> _ nex Inr "1.prems"] ex by simp
          with \<open>n \<ge> 0\<close> ex nex Inr "1.prems" fe show ?thesis
            by (simp add: shift_loop.simps [of _ w n])
        qed
      qed
    qed
  qed
qed

lemma fs_ok_updates [simp]:
  "fs_ok (w\<lparr>inodes := i\<rparr>) = fs_ok w"
  "fs_ok (w\<lparr>next_ino := n\<rparr>) = fs_ok w"
  "fs_ok (w\<lparr>s3_objects := s\<rparr>) = fs_ok w"
  by (simp_all add: fs_ok_def)

lemma resolved_host_updates [simp]:
  "resolved_host (w\<lparr>dir := d\<rparr>) = resolved_host w"
  "resolved_host (w\<lparr>inodes := i\<rparr>) = resolved_host w"
  "resolved_host (w\<lparr>next_ino := n\<rparr>) = resolved_host w"
  "resolved_host (w\<lparr>s3_objects := s\<rparr>) = resolved_host w"
  by (simp_all add: resolved_host_def localIP_def Let_def split: option.splits)

lemma s3KeyName_updates [simp]:
  "s3KeyName (w\<lparr>dir := d\<rparr>) = s3KeyName w"
  "s3KeyName (w\<lparr>inodes := i\<rparr>) = s3KeyName w"
  "s3KeyName (w\<lparr>next_ino := n\<rparr>) = s3KeyName w"
  "s3KeyName (w\<lparr>s3_objects := s\<rparr>) = s3KeyName w"
  by (simp_all add: s3KeyName_def)

lemma s3Upload_fault_free: "fault_free w \<Longrightarrow> s3Upload m w = Return (None, uploaded m w)"
  by (simp add: s3Upload_def uploader_Upload_def os_Open_def fault_free_def uploaded_def
           split: option.splits)

lemma os_Create_fs_ok:
  "fs_ok w \<Longrightarrow> dir w p = None \<Longrightarrow>
   os_Create w p =
     Inr (\<lparr>h_ino = next_ino w, h_closed = False\<rparr>,
          w\<lparr>dir := (dir w)(p \<mapsto> next_ino w),
            inodes := (inodes w)(next_ino w := \<lparr>content = [], mtime = clock w\<rparr>),
            next_ino := Suc (next_ino w)\<rparr>)"
  by (simp add: os_Create_def fs_ok_def)

lemma os_Remove_ignored:
  "fs_ok w \<Longrightarrow>
   (case os_Remove w p of Inl err \<Rightarrow> w | Inr w' \<Rightarrow> w') = w\<lparr>dir := (dir w)(p := None)\<rparr>"
  by (cases "dir w p") (simp_all add: os_Remove_def fs_ok_def fun_upd_idem)

lemma pruned_slot:
  "n \<le> k \<Longrightarrow> k < managerMaxFiles \<Longrightarrow> pruned m d n (filePath m k) = None"
  by (auto simp: pruned_def)

lemma pruned_below: "k < n \<Longrightarrow> pruned m d n (filePath m k) = d (filePath m k)"
  by (auto simp: pruned_def filePath_inj)

lemma file_Close_open:
  "fs_ok w \<Longrightarrow> \<not> h_closed h \<Longrightarrow> file_Close w h = (None, h\<lparr>h_closed := True\<rparr>)"
  by (simp add: file_Close_def fs_ok_def)



lemma fault_free_updates [simp]:
  "fault_free (w\<lparr>dir := d\<rparr>) = fault_free w"
  "fault_free (w\<lparr>inodes := i\<rparr>) = fault_free w"
  "fault_free (w\<lparr>next_ino := n\<rparr>) = fault_free w"
  "fault_free (w\<lparr>s3_objects := s\<rparr>) = fault_free w"
  by (simp_all add: fault_free_def)

text \<open>
  The rotation on a file system without failures: everything up to the upload step is
  determined, and the outcome is the one of the upload step.
\<close>

lemma rotate_fs_ok:
  assumes ff: "fs_ok w" and keep: "KeepFiles m = Some keep"
      and pos: "0 < keep" and lt: "keep < managerMaxFiles"
      and cur: "current m = None \<or> (\<exists>h. current m = Some h \<and> \<not> h_closed h)"
  shows "rotate m w =
           (case s3Upload (m\<lparr>current := Some \<lparr>h_ino = next_ino w, h_closed = False\<rparr>,
                             current_size := 0, last_file := filePath m 1\<rparr>)
                          (rotated_world m w keep) of
              Panic \<Rightarrow> Panic
            | Return (uerr, w5) \<Rightarrow>
                Return (None,
                        m\<lparr>current := Some \<lparr>h_ino = next_ino w, h_closed = False\<rparr>,
                          current_size := 0, last_file := filePath m 1\<rparr>,
                        w5))"
proof -
  define m1 where "m1 = (case current m of None \<Rightarrow> m
                         | Some h \<Rightarrow> m\<lparr>current := Some (h\<lparr>h_closed := True\<rparr>)\<rparr>)"
  have fp1: "filePath m1 = filePath m" by (simp add: m1_def split: option.splits)
  have k1: "KeepFiles m1 = Some keep" using keep by (simp add: m1_def split: option.splits)
  have close: "(case current m of None \<Rightarrow> (None, m)
                | Some h \<Rightarrow> (case file_Close w h of (e, h') \<Rightarrow> (e, m\<lparr>current := Some h'\<rparr>)))
               = (None, m1)"
    using cur ff by (auto simp: m1_def file_Close_open)
  let ?w1 = "w\<lparr>dir := pruned m (dir w) keep\<rparr>"
  have prune: "prune_loop m1 w keep = (None, ?w1)"
    using prune_loop_fs_ok [OF ff, of m keep] by (simp add: prune_loop_same_name [OF fp1])
  have gi: "go_int (keep - 1) = keep - 1"
    using pos lt by (intro go_int_id) (simp_all add: managerMaxFiles_def)
  let ?d2 = "shifted m (pruned m (dir w) keep) (keep - 1)"
  let ?w2 = "w\<lparr>dir := ?d2\<rparr>"
  have "shift_loop m ?w1 (keep - 1) = (None, ?w1\<lparr>dir := shifted m (dir ?w1) (keep - 1)\<rparr>)"
    using ff lt by (intro shift_loop_fs_ok) (simp_all add: pruned_slot)
  then have shift: "shift_loop m1 ?w1 (go_int (keep - 1)) = (None, ?w2)"
    by (simp add: gi shift_loop_same_name [OF fp1])
  have z: "?d2 (filePath m 0) = None"
    using shifted_zero [of "pruned m (dir w) keep" m "keep - 1"] pos lt
    by (simp add: pruned_slot)
  let ?w3 = "w\<lparr>dir := ?d2(filePath m 0 \<mapsto> next_ino w),
               inodes := (inodes w)(next_ino w := \<lparr>content = [], mtime = clock w\<rparr>),
               next_ino := Suc (next_ino w)\<rparr>"
  have create: "os_Create ?w2 (filePath m 0) =
                  Inr (\<lparr>h_ino = next_ino w, h_closed = False\<rparr>, ?w3)"
    using os_Create_fs_ok [of ?w2 "filePath m 0"] ff z by simp
  have remove: "(case os_Remove ?w3 (filePath m keep) of Inl err \<Rightarrow> ?w3 | Inr w' \<Rightarrow> w')
                  = rotated_world m w keep"
    using ff by (subst os_Remove_ignored) (simp_all add: rotated_world_def rotated_dir_def)
  have mfin: "m1\<lparr>current := Some \<lparr>h_ino = next_ino w, h_closed = False\<rparr>,
                 current_size := 0, last_file := filePath m 1\<rparr>
              = m\<lparr>current := Some \<lparr>h_ino = next_ino w, h_closed = False\<rparr>,
                  current_size := 0, last_file := filePath m 1\<rparr>"
    by (simp add: m1_def split: option.splits)
  show ?thesis
    unfolding rotate_def close
    by (simp add: k1 prune shift create remove fp1 mfin Let_def split: res.splits)
qed

lemma s3Upload_only_last:
  "last_file m' = last_file m \<Longrightarrow> Bucket m' = Bucket m \<Longrightarrow> s3Upload m' w = s3Upload m w"
  by (simp add: s3Upload_def split: option.splits)

lemma rotate_fault_free:
  assumes ff: "fault_free w" and keep: "KeepFiles m = Some keep"
      and pos: "0 < keep" and lt: "keep < managerMaxFiles"
      and cur: "current m = None \<or> (\<exists>h. current m = Some h \<and> \<not> h_closed h)"
  shows "rotate m w =
           Return (None,
                   m\<lparr>current := Some \<lparr>h_ino = next_ino w, h_closed = False\<rparr>,
                     current_size := 0, last_file := filePath m 1\<rparr>,
                   uploaded (m\<lparr>last_file := filePath m 1\<rparr>) (rotated_world m w keep))"
proof -
  have ffr: "fault_free (rotated_world m w keep)"
    using ff by (simp add: rotated_world_def)
  have same: "s3Upload (m\<lparr>current := Some \<lparr>h_ino = next_ino w, h_closed = False\<rparr>,
                          current_size := 0, last_file := filePath m 1\<rparr>)
                       (rotated_world m w keep)
                = s3Upload (m\<lparr>last_file := filePath m 1\<rparr>) (rotated_world m w keep)"
    by (rule s3Upload_only_last) simp_all
  show ?thesis
    by (simp add: rotate_fs_ok [OF fault_free_fs_ok [OF ff] keep pos lt cur] same
                  s3Upload_fault_free [OF ffr] uploaded_def)
qed

section \<open>The directory after a rotation\<close>

lemma rotated_dir_live: "keep \<noteq> 0 \<Longrightarrow> rotated_dir m d keep i (filePath m 0) = Some i"
  by (simp add: rotated_dir_def filePath_inj)

lemma rotated_dir_aged:
  "0 \<le> k \<Longrightarrow> k + 1 < keep \<Longrightarrow> keep < managerMaxFiles \<Longrightarrow>
   rotated_dir m d keep i (filePath m (k + 1)) = d (filePath m k)"
proof -
  assume k: "0 \<le> k" "k + 1 < keep" and lt: "keep < managerMaxFiles"
  have top: "pruned m d keep (filePath m (keep - 1 + 1)) = None"
    using lt by (simp add: pruned_slot)
  have "shifted m (pruned m d keep) (keep - 1) (filePath m (k + 1))
          = pruned m d keep (filePath m k)"
    using top k by (intro shifted_slot) simp_all
  also have "\<dots> = d (filePath m k)" using k by (simp add: pruned_below)
  finally show ?thesis using k by (simp add: rotated_dir_def filePath_inj)
qed

lemma rotated_dir_beyond:
  "0 < keep \<Longrightarrow> keep \<le> k \<Longrightarrow> k < managerMaxFiles \<Longrightarrow>
   rotated_dir m d keep i (filePath m k) = None"
proof (cases "k = keep")
  case True
  then show ?thesis by (simp add: rotated_dir_def)
next
  case False
  assume "0 < keep" "keep \<le> k" "k < managerMaxFiles"
  with False have gt: "keep - 1 + 1 < k" by simp
  have "shifted m (pruned m d keep) (keep - 1) (filePath m k) = pruned m d keep (filePath m k)"
    using gt by (rule shifted_above)
  also have "\<dots> = None" using \<open>keep \<le> k\<close> \<open>k < managerMaxFiles\<close> by (simp add: pruned_slot)
  finally show ?thesis using False \<open>0 < keep\<close> \<open>keep \<le> k\<close>
    by (simp add: rotated_dir_def filePath_inj)
qed

lemma uploaded_fields [simp]:
  "dir (uploaded m w) = dir w"
  "inodes (uploaded m w) = inodes w"
  "next_ino (uploaded m w) = next_ino w"
  "faults (uploaded m w) = faults w"
  by (simp_all add: uploaded_def)

lemma rotated_world_fields [simp]:
  "dir (rotated_world m w keep) = rotated_dir m (dir w) keep (next_ino w)"
  "inodes (rotated_world m w keep) = (inodes w)(next_ino w := \<lparr>content = [], mtime = clock w\<rparr>)"
  "faults (rotated_world m w keep) = faults w"
  "clock (rotated_world m w keep) = clock w"
  "s3_objects (rotated_world m w keep) = s3_objects w"
  by (simp_all add: rotated_world_def)

section \<open>The example inputs evaluated\<close>

lemma ex_paths:
  "filePath ex_manager 0 = ''/var/log/s3/beat''"
  "filePath ex_manager 1 = ''/var/log/s3/beat.1''"
  "filePath ex_manager 2 = ''/var/log/s3/beat.2''"
  "filePath ex_manager 3 = ''/var/log/s3/beat.3''"
  "filePath ex_manager 4 = ''/var/log/s3/beat.4''"
  by code_simp+

lemma ex_key: "s3KeyName ex_world = ''/2016/03/07/web1_20160307T090501.000000042Z''"
  by code_simp

lemma ex_first_rotation:
  "rotate ex_manager ex_world =
     Return (None,
             ex_manager\<lparr>current := Some \<lparr>h_ino = 5, h_closed = False\<rparr>,
                        current_size := 0, last_file := ''/var/log/s3/beat.1''\<rparr>,
             uploaded (ex_manager\<lparr>last_file := ''/var/log/s3/beat.1''\<rparr>)
                      (rotated_world ex_manager ex_world 3))"
proof -
  have ff: "fault_free ex_world" by (simp add: fault_free_def ex_world_def)
  have k: "KeepFiles ex_manager = Some 3" by (simp add: ex_manager_def)
  have c: "current ex_manager = None \<or> (\<exists>h. current ex_manager = Some h \<and> \<not> h_closed h)"
    by (simp add: ex_manager_def)
  have n: "next_ino ex_world = 5" by (simp add: ex_world_def)
  show ?thesis
    using rotate_fault_free [OF ff k _ _ c] by (simp add: managerMaxFiles_def ex_paths n)
qed


lemma ex_path_1023: "filePath ex_manager 1023 = ''/var/log/s3/beat.1023''"
  by code_simp

lemma ex_path_1023': "filePath (ex_manager\<lparr>KeepFiles := Some 1023\<rparr>) 1023 = ''/var/log/s3/beat.1023''"
  by code_simp

lemma s3Upload_rejected:
  "faults w AwsNewSession = None \<Longrightarrow> faults w (AwsUpload (Bucket m) (s3KeyName w @ ''.gz'')) = Some e
   \<Longrightarrow> s3Upload m w = Panic"
  by (simp add: s3Upload_def uploader_Upload_def)

lemma ex_reject_fs_ok: "fs_ok ex_reject"
  by (simp add: fs_ok_def ex_reject_def ex_world5_def ex_world_def)

lemma ex_world5_fault_free: "fault_free ex_world5"
  by (simp add: fault_free_def ex_world5_def ex_world_def)

lemma ex_world5_dir:
  "dir ex_world5 (filePath ex_manager 0) = Some 0"
  "dir ex_world5 (filePath ex_manager 1) = Some 1"
  "dir ex_world5 (filePath ex_manager 2) = Some 2"
  "dir ex_world5 (filePath ex_manager 3) = Some 3"
  "dir ex_world5 (filePath ex_manager 4) = Some 4"
  by (simp_all add: ex_paths ex_world5_def ex_ring_def)

lemma ex_world5_dir_str:
  "dir ex_world5 ''/var/log/s3/beat'' = Some 0"
  "dir ex_world5 ''/var/log/s3/beat.1'' = Some 1"
  "dir ex_world5 ''/var/log/s3/beat.2'' = Some 2"
  "dir ex_world5 ''/var/log/s3/beat.3'' = Some 3"
  "dir ex_world5 ''/var/log/s3/beat.4'' = Some 4"
  by (simp_all add: ex_world5_def ex_ring_def)

lemma ex_rotation5:
  "rotate ex_manager ex_world5 =
     Return (None,
             ex_manager\<lparr>current := Some \<lparr>h_ino = 5, h_closed = False\<rparr>,
                        current_size := 0, last_file := ''/var/log/s3/beat.1''\<rparr>,
             uploaded (ex_manager\<lparr>last_file := ''/var/log/s3/beat.1''\<rparr>)
                      (rotated_world ex_manager ex_world5 3))"
proof -
  have k: "KeepFiles ex_manager = Some 3" by (simp add: ex_manager_def)
  have c: "current ex_manager = None \<or> (\<exists>h. current ex_manager = Some h \<and> \<not> h_closed h)"
    by (simp add: ex_manager_def)
  have n: "next_ino ex_world5 = 5" by (simp add: ex_world5_def ex_world_def)
  show ?thesis
    using rotate_fault_free [OF ex_world5_fault_free k _ _ c]
    by (simp add: managerMaxFiles_def ex_paths n)
qed

lemma rotated_ring_keep3:
  assumes lt: "(3::int) < managerMaxFiles"
  shows "rotated_dir m d 3 i (filePath m 0) = Some i"
    and "rotated_dir m d 3 i (filePath m 1) = d (filePath m 0)"
    and "rotated_dir m d 3 i (filePath m 2) = d (filePath m 1)"
    and "rotated_dir m d 3 i (filePath m 3) = None"
proof -
  show "rotated_dir m d 3 i (filePath m 0) = Some i" by (rule rotated_dir_live) simp
  show "rotated_dir m d 3 i (filePath m 1) = d (filePath m 0)"
    using rotated_dir_aged [of 0 3 m d i] lt by simp
  show "rotated_dir m d 3 i (filePath m 2) = d (filePath m 1)"
    using rotated_dir_aged [of 1 3 m d i] lt by simp
  show "rotated_dir m d 3 i (filePath m 3) = None"
    using rotated_dir_beyond [of 3 3 m d i] lt by simp
qed

lemma prune_loop_clean:
  "\<forall>k. n \<le> k \<and> k < managerMaxFiles \<longrightarrow>
        faults w (SysStat (filePath m k)) = None \<and> dir w (filePath m k) = None
   \<Longrightarrow> prune_loop m w n = (None, w)"
proof (induction m w n rule: prune_loop.induct)
  case (1 m w n)
  show ?case
  proof (cases "n < managerMaxFiles")
    case False
    then show ?thesis by (simp add: prune_loop.simps [of m w n])
  next
    case True
    with "1.prems" have nex: "\<not> fileExists m w n"
      by (simp add: fileExists_def os_Stat_def)
    have "prune_loop m w (n + 1) = (None, w)"
      using "1.IH"(2) [OF True nex] "1.prems" by simp
    with True nex show ?thesis by (simp add: prune_loop.simps [of m w n])
  qed
qed

lemma ex_stuck_paths:
  "dir ex_stuck (filePath ex_manager 0) = Some 0"
  "dir ex_stuck (filePath ex_manager 1) = Some 1"
  "faults ex_stuck (SysStat (filePath ex_manager 1)) = Some EACCES"
  by (simp_all add: ex_paths ex_stuck_def)

lemma ex_stuck_slots:
  "fileExists ex_manager ex_stuck 2 = False"
  "fileExists ex_manager ex_stuck 1 = True"
  "fileExists ex_manager ex_shifted 0 = True"
  "fileExists ex_manager ex_shifted 1 = True"
  by (simp_all add: fileExists_def os_Stat_def ex_paths ex_stuck_def ex_shifted_def ex_world_def)

lemma ex_stuck_prune: "prune_loop ex_manager ex_stuck 3 = (None, ex_stuck)"
proof (rule prune_loop_clean, intro allI impI)
  fix k :: int
  assume k: "3 \<le> k \<and> k < managerMaxFiles"
  then have ne: "filePath ex_manager k \<noteq> filePath ex_manager 0"
    "filePath ex_manager k \<noteq> filePath ex_manager 1"
    by (simp_all add: filePath_inj)
  then show "faults ex_stuck (SysStat (filePath ex_manager k)) = None
             \<and> dir ex_stuck (filePath ex_manager k) = None"
    by (simp add: ex_stuck_def ex_paths)
qed

lemma ex_stuck_shift:
  "shift_loop ex_manager ex_stuck 2 = shift_loop ex_manager ex_shifted 0"
proof -
  have g2: "go_int 2 = 2" by (simp add: go_int_def)
  have rn: "os_Rename ex_stuck (filePath ex_manager 1) (filePath ex_manager 2) = Inr ex_shifted"
    by (simp add: os_Rename_def ex_paths ex_shifted_def) (simp add: ex_stuck_def ex_world_def)
  have "shift_loop ex_manager ex_stuck 2 = shift_loop ex_manager ex_stuck 1"
    by (subst shift_loop.simps) (simp add: ex_stuck_slots)
  also have "\<dots> = shift_loop ex_manager ex_shifted 0"
    by (subst shift_loop.simps) (simp add: ex_stuck_slots g2 rn)
  finally show ?thesis .
qed


section \<open>Appending lines\<close>

lemma s3Upload_inodes: "s3Upload m w = Return (e, w') \<Longrightarrow> inodes w' = inodes w \<and> dir w' = dir w"
  by (auto simp: s3Upload_def uploader_Upload_def Let_def split: option.splits prod.splits)

lemma os_Create_live:
  "os_Create w p = Inr (cur, w') \<Longrightarrow> \<not> h_closed cur \<and> content (inodes w' (h_ino cur)) = []"
  by (auto simp: os_Create_def split: option.splits)

lemma os_Remove_ignored_inodes:
  "inodes (case os_Remove w p of Inl err \<Rightarrow> w | Inr w' \<Rightarrow> w') = inodes w"
  by (auto simp: os_Remove_def split: option.splits)

lemma os_Remove_inodes: "os_Remove w p = Inr w' \<Longrightarrow> inodes w' = inodes w"
  by (auto simp: os_Remove_def split: option.splits)

lemma rotate_live:
  assumes "rotate m w = Return (None, m', w')"
  shows "\<exists>cur. current m' = Some cur \<and> \<not> h_closed cur \<and> content (inodes w' (h_ino cur)) = []
               \<and> current_size m' = 0
               \<and> UploadEveryBytes m' = UploadEveryBytes m
               \<and> UploadEverySeconds m' = UploadEverySeconds m"
  using assms unfolding rotate_def Let_def
  by (auto split: option.splits prod.splits sum.splits res.splits
           dest!: os_Create_live s3Upload_inodes os_Remove_inodes)

lemma unat_counter_add:
  "unat (c :: 64 word) = a \<Longrightarrow> a + n \<le> max_file_size \<Longrightarrow> unat (c + of_nat n) = a + n"
proof -
  assume c: "unat c = a" and le: "a + n \<le> max_file_size"
  have n: "unat (of_nat n :: 64 word) = n"
    using le by (simp add: unat_of_nat max_file_size_def)
  have "unat c + unat (of_nat n :: 64 word) < 2 ^ LENGTH(64)"
    using c n le by (simp add: max_file_size_def)
  then have "unat (c + of_nat n) = unat c + unat (of_nat n :: 64 word)"
    by (simp only: unat_add_lem)
  with c n show ?thesis by simp
qed

lemma file_Write_ok:
  "file_Write w cur b = (None, w') \<Longrightarrow>
   content (inodes w' (h_ino cur)) = content (inodes w (h_ino cur)) @ b
   \<and> length (content (inodes w (h_ino cur))) + length b \<le> max_file_size"
  by (auto simp: file_Write_def append_bytes_def split: if_splits option.splits)

lemma writeLine_tracks:
  assumes wl: "writeLine m w l = Return (None, m', w')"
      and sr: "shouldRotate m w = Return due"
      and tr: "due \<or> tracked m w acc"
  shows "tracked m' w' ((if due then [] else acc) @ l @ [CHR 0x0A])"
proof -
  obtain m1 w1 where r: "(if due then rotate m w else Return (None, m, w)) = Return (None, m1, w1)"
    using wl sr by (auto simp: writeLine_def split: res.splits prod.splits option.splits)
  have t1: "tracked m1 w1 (if due then [] else acc)"
  proof (cases due)
    case True
    with r have "rotate m w = Return (None, m1, w1)" by simp
    from rotate_live [OF this] show ?thesis using True
      by (auto simp: tracked_def live_bytes_def)
  next
    case False
    with r tr show ?thesis by simp
  qed
  then obtain cur where cur: "current m1 = Some cur" by (auto simp: tracked_def)
  from wl sr r cur obtain
        fw: "file_Write w1 cur (l @ [CHR 0x0A]) = (None, w')"
    and m': "m' = m1\<lparr>current_size := current_size m1 + of_nat (length (l @ [CHR 0x0A]))\<rparr>"
    by (auto simp: writeLine_def Let_def split: prod.splits option.splits)
  let ?acc = "if due then [] else acc"
  let ?b = "l @ [CHR 0x0A]"
  from file_Write_ok [OF fw] t1 cur
  have c': "content (inodes w' (h_ino cur)) = ?acc @ ?b"
    and le: "length ?acc + length ?b \<le> max_file_size"
    by (auto simp: tracked_def live_bytes_def)
  from t1 have "unat (current_size m1) = length ?acc" by (simp add: tracked_def)
  from unat_counter_add [OF this le]
  have u: "unat (current_size m') = length (?acc @ ?b)" unfolding m' by simp
  have "current m' = Some cur" using m' cur by simp
  with c' u le show ?thesis
    unfolding tracked_def live_bytes_def by (simp del: append.simps)
qed

lemma writeLines_tracks:
  assumes "writeLines m w ls = Return (None, m', w')"
      and "tracked m w acc \<or> (current m = None \<and> current_size m = 0 \<and> acc = [])"
  shows "tracked m' w' (since_rotation m w ls acc)
         \<or> (current m' = None \<and> current_size m' = 0 \<and> since_rotation m w ls acc = [])"
  using assms
proof (induction ls arbitrary: m w acc)
  case Nil
  then show ?case by simp
next
  case (Cons l ls)
  from Cons.prems(1) obtain m1 w1 where
        wl: "writeLine m w l = Return (None, m1, w1)"
    and rest: "writeLines m1 w1 ls = Return (None, m', w')"
    by (auto split: res.splits prod.splits option.splits)
  from wl obtain due where sr: "shouldRotate m w = Return due"
    by (auto simp: writeLine_def split: res.splits)
  have "due \<or> tracked m w acc"
    using Cons.prems(2) sr by (auto simp: shouldRotate_def)
  from writeLine_tracks [OF wl sr this]
  have t1: "tracked m1 w1 ((if due then [] else acc) @ l @ [CHR 0x0A])" .
  have "since_rotation m w (l # ls) acc
          = since_rotation m1 w1 ls ((if due then [] else acc) @ l @ [CHR 0x0A])"
    using sr wl by simp
  with Cons.IH [OF rest, of "(if due then [] else acc) @ l @ [CHR 0x0A]"] t1
  show ?case by simp
qed

lemma shouldRotate_size_only:
  "current m \<noteq> None \<Longrightarrow> UploadEveryBytes m = Some b \<Longrightarrow> UploadEverySeconds m = Some s \<Longrightarrow>
   s \<le> 0 \<Longrightarrow> shouldRotate m w = Return (b \<le> current_size m)"
  by (simp add: shouldRotate_def)

lemma writeLine_no_rotation:
  "shouldRotate m w = Return False \<Longrightarrow> current m = Some cur \<Longrightarrow> \<not> h_closed cur \<Longrightarrow>
   faults w (SysWrite (h_ino cur)) = None \<Longrightarrow>
   length (content (inodes w (h_ino cur))) + length l + 1 \<le> max_file_size \<Longrightarrow>
   writeLine m w l =
     Return (None, m\<lparr>current_size := current_size m + of_nat (length l + 1)\<rparr>,
             append_bytes w (h_ino cur) (l @ [CHR 0x0A]))"
  by (simp add: writeLine_def file_Write_def)

lemma writeLine_keeps_config:
  "writeLine m w l = Return (None, m', w') \<Longrightarrow>
   UploadEveryBytes m' = UploadEveryBytes m \<and> UploadEverySeconds m' = UploadEverySeconds m"
  by (auto simp: writeLine_def Let_def split: res.splits prod.splits option.splits if_splits
           dest!: rotate_live)

lemma no_rotation_below_threshold:
  assumes "writeLines m w ls = Return (None, m', w')"
      and "tracked m w acc"
      and "UploadEveryBytes m = Some b" and "UploadEverySeconds m = Some s" and "s \<le> 0"
      and "ls \<noteq> [] \<longrightarrow> length acc + (\<Sum>x\<leftarrow>butlast ls. length x + 1) < unat b"
  shows "rotations m w ls = replicate (length ls) False
         \<and> tracked m' w' (acc @ concat (map (\<lambda>x. x @ [CHR 0x0A]) ls))
         \<and> UploadEveryBytes m' = Some b \<and> UploadEverySeconds m' = Some s"
  using assms
proof (induction ls arbitrary: m w acc)
  case Nil
  then show ?case by simp
next
  case (Cons l ls)
  from Cons.prems(1) obtain m1 w1 where
        wl: "writeLine m w l = Return (None, m1, w1)"
    and rest: "writeLines m1 w1 ls = Return (None, m', w')"
    by (auto split: res.splits prod.splits option.splits)
  have lt: "length acc < unat b" using Cons.prems(6) by simp
  have cur: "current m \<noteq> None" and sz: "unat (current_size m) = length acc"
    using Cons.prems(2) by (simp_all add: tracked_def)
  have "\<not> b \<le> current_size m" using lt sz by (simp add: word_le_nat_alt)
  with shouldRotate_size_only [OF cur Cons.prems(3,4,5), of w]
  have sr: "shouldRotate m w = Return False" by simp
  have t1: "tracked m1 w1 (acc @ l @ [CHR 0x0A])"
    using writeLine_tracks [OF wl sr, of acc] Cons.prems(2) by simp
  have cfg: "UploadEveryBytes m1 = Some b" "UploadEverySeconds m1 = Some s"
    using writeLine_keeps_config [OF wl] Cons.prems(3,4) by simp_all
  have below: "ls \<noteq> [] \<longrightarrow>
                 length (acc @ l @ [CHR 0x0A]) + (\<Sum>x\<leftarrow>butlast ls. length x + 1) < unat b"
    using Cons.prems(6) by auto
  from Cons.IH [OF rest t1 cfg Cons.prems(5) below] sr wl show ?case by simp
qed

lemma ex_first: "rotate ex_manager ex_world = Return (None, ex_live, ex_rotated)"
  using ex_first_rotation by (simp add: ex_live_def ex_rotated_def)

lemma ex_rotated_fields:
  "faults ex_rotated = (\<lambda>c. None)"
  "content (inodes ex_rotated 5) = []"
  by (simp_all add: ex_rotated_def ex_world_def)

lemma ex_live_fields:
  "current ex_live = Some \<lparr>h_ino = 5, h_closed = False\<rparr>"
  "current_size ex_live = 0"
  "UploadEveryBytes ex_live = Some 100"
  "UploadEverySeconds ex_live = Some 0"
  by (simp_all add: ex_live_def ex_manager_def)

lemma ex_append_fields [simp]:
  "faults (append_bytes w i b) = faults w"
  "content (inodes (append_bytes w i b) i) = content (inodes w i) @ b"
  by (simp_all add: append_bytes_def)

lemma ex_live_write:
  assumes "c < 100" and "length (content (inodes w 5)) + length l + 1 \<le> max_file_size"
      and "faults w = (\<lambda>c. None)"
  shows "shouldRotate (ex_live\<lparr>current_size := c\<rparr>) w = Return False"
    and "writeLine (ex_live\<lparr>current_size := c\<rparr>) w l =
           Return (None, ex_live\<lparr>current_size := c + of_nat (length l + 1)\<rparr>,
                   append_bytes w 5 (l @ [CHR 0x0A]))"
proof -
  show sr: "shouldRotate (ex_live\<lparr>current_size := c\<rparr>) w = Return False"
    using shouldRotate_size_only [of "ex_live\<lparr>current_size := c\<rparr>" 100 0 w] assms(1)
    by (simp add: ex_live_fields)
  show "writeLine (ex_live\<lparr>current_size := c\<rparr>) w l =
           Return (None, ex_live\<lparr>current_size := c + of_nat (length l + 1)\<rparr>,
                   append_bytes w 5 (l @ [CHR 0x0A]))"
    using writeLine_no_rotation [OF sr, of "\<lparr>h_ino = 5, h_closed = False\<rparr>" l] assms(2,3)
    by (simp add: ex_live_fields)
qed

lemma ex_live_id: "ex_live\<lparr>current_size := 0\<rparr> = ex_live"
  by (simp add: ex_live_def)

lemma ex_start_write:
  assumes "length l + 1 \<le> max_file_size"
  shows "shouldRotate ex_manager ex_world = Return True"
    and "writeLine ex_manager ex_world l =
           Return (None, ex_live\<lparr>current_size := of_nat (length l + 1)\<rparr>,
                   append_bytes ex_rotated 5 (l @ [CHR 0x0A]))"
proof -
  show sr: "shouldRotate ex_manager ex_world = Return True"
    by (simp add: shouldRotate_def ex_manager_def)
  show "writeLine ex_manager ex_world l =
           Return (None, ex_live\<lparr>current_size := of_nat (length l + 1)\<rparr>,
                   append_bytes ex_rotated 5 (l @ [CHR 0x0A]))"
    using assms
    by (simp add: writeLine_def sr ex_first ex_live_fields file_Write_def ex_rotated_fields)
qed


lemma writeLine_unfold:
  "writeLine m w l =
     (case shouldRotate m w of
        Panic \<Rightarrow> Panic
      | Return due \<Rightarrow>
          (case (if due then rotate m w else Return (None, m, w)) of
             Panic \<Rightarrow> Panic
           | Return (Some err, m1, w1) \<Rightarrow> Return (Some err, m1, w1)
           | Return (None, m1, w1) \<Rightarrow> append_line m1 w1 l))"
  by (simp add: writeLine_def append_line_def split: res.splits prod.splits option.splits)

lemma writeLine_plain: "shouldRotate m w = Return False \<Longrightarrow> writeLine m w l = append_line m w l"
  by (simp add: writeLine_unfold)

lemma writeLine_rotating:
  "shouldRotate m w = Return True \<Longrightarrow> rotate m w = Return (None, m2, w2) \<Longrightarrow>
   writeLine m w l = append_line m2 w2 l"
  by (simp add: writeLine_unfold)

lemma plain_below_threshold:
  assumes "tracked m w acc"
      and "UploadEveryBytes m = Some b" and "UploadEverySeconds m = Some s" and "s \<le> 0"
      and "ls \<noteq> [] \<longrightarrow> length acc + (\<Sum>x\<leftarrow>butlast ls. length x + 1) < unat b"
  shows "writeLines m w ls = appends_plain m w ls"
  using assms
proof (induction ls arbitrary: m w acc)
  case Nil
  then show ?case by simp
next
  case (Cons l ls)
  have lt: "length acc < unat b" using Cons.prems(5) by simp
  have cur: "current m \<noteq> None" and sz: "unat (current_size m) = length acc"
    using Cons.prems(1) by (simp_all add: tracked_def)
  have "\<not> b \<le> current_size m" using lt sz by (simp add: word_le_nat_alt)
  with shouldRotate_size_only [OF cur Cons.prems(2,3,4), of w]
  have sr: "shouldRotate m w = Return False" by simp
  note pl = writeLine_plain [OF sr, of l]
  show ?case
  proof (cases "append_line m w l")
    case Panic
    with pl show ?thesis by simp
  next
    case (Return r)
    obtain e m1 w1 where r: "r = (e, m1, w1)" by (cases r)
    show ?thesis
    proof (cases e)
      case (Some err)
      with Return r pl show ?thesis by simp
    next
      case None
      with Return r pl have wl: "writeLine m w l = Return (None, m1, w1)" by simp
      have t1: "tracked m1 w1 (acc @ l @ [CHR 0x0A])"
        using writeLine_tracks [OF wl sr, of acc] Cons.prems(1) by simp
      have cfg: "UploadEveryBytes m1 = Some b" "UploadEverySeconds m1 = Some s"
        using writeLine_keeps_config [OF wl] Cons.prems(2,3) by simp_all
      have below: "ls \<noteq> [] \<longrightarrow>
                 length (acc @ l @ [CHR 0x0A]) + (\<Sum>x\<leftarrow>butlast ls. length x + 1) < unat b"
        using Cons.prems(5) by auto
      from Cons.IH [OF t1 cfg Cons.prems(4) below] wl Return r None pl show ?thesis by simp
    qed
  qed
qed

lemma ex_crossed_run:
  "writeLines ex_live ex_rotated ([''hello''] @ [replicate 100 (CHR ''x'')])
     = Return (None, ex_crossed_m, ex_crossed_w)"
proof -
  have w1: "writeLine ex_live ex_rotated ''hello'' =
              Return (None, ex_live\<lparr>current_size := 6\<rparr>,
                      append_bytes ex_rotated 5 (''hello'' @ [CHR 0x0A]))"
    using ex_live_write(2) [of 0 ex_rotated "''hello''"]
    by (simp add: ex_rotated_fields max_file_size_def ex_live_id)
  have w2: "writeLine (ex_live\<lparr>current_size := 6\<rparr>)
              (append_bytes ex_rotated 5 (''hello'' @ [CHR 0x0A])) (replicate 100 (CHR ''x'')) =
              Return (None, ex_live\<lparr>current_size := 107\<rparr>,
                      append_bytes (append_bytes ex_rotated 5 (''hello'' @ [CHR 0x0A])) 5
                                   (replicate 100 (CHR ''x'') @ [CHR 0x0A]))"
    using ex_live_write(2) [of 6 "append_bytes ex_rotated 5 (''hello'' @ [CHR 0x0A])"
                               "replicate 100 (CHR ''x'')"]
    by (simp add: ex_rotated_fields max_file_size_def)
  show ?thesis using w1 w2 by (simp add: ex_crossed_m_def ex_crossed_w_def)
qed

lemma ex_crossed_paths: "filePath ex_crossed_m = filePath ex_manager"
  by (simp add: ex_crossed_m_def ex_live_def)

lemma ex_crossed_dir: "dir ex_crossed_w = dir ex_rotated"
  by (simp add: ex_crossed_w_def append_bytes_def)

lemma ex_crossed_rotation: "rotate ex_crossed_m ex_crossed_w = Return (None, ex_again_m, ex_again_w)"
proof -
  have ff: "fault_free ex_crossed_w"
    by (simp add: fault_free_def ex_crossed_w_def ex_rotated_fields)
  have k: "KeepFiles ex_crossed_m = Some 3"
    by (simp add: ex_crossed_m_def ex_live_def ex_manager_def)
  have c: "current ex_crossed_m = None
           \<or> (\<exists>h. current ex_crossed_m = Some h \<and> \<not> h_closed h)"
    by (simp add: ex_crossed_m_def ex_live_def)
  have n: "next_ino ex_crossed_w = 6"
    by (simp add: ex_crossed_w_def append_bytes_def ex_rotated_def uploaded_def
          rotated_world_def ex_world_def)
  show ?thesis
    using rotate_fault_free [OF ff k _ _ c]
    by (simp add: managerMaxFiles_def n ex_crossed_paths ex_paths ex_again_m_def ex_again_w_def)
qed

lemma ex_again_fields:
  "current ex_again_m = Some \<lparr>h_ino = 6, h_closed = False\<rparr>"
  "current_size ex_again_m = 0"
  "faults ex_again_w = (\<lambda>c. None)"
  "content (inodes ex_again_w 6) = []"
  by (simp_all add: ex_again_m_def ex_again_w_def ex_crossed_w_def append_bytes_def
        ex_rotated_def uploaded_def rotated_world_def ex_world_def)

lemma ex_again_ring:
  "dir ex_again_w (filePath ex_manager 0) = Some 6"
  "dir ex_again_w (filePath ex_manager 1) = Some 5"
proof -
  have lt: "(3::int) < managerMaxFiles" by (simp add: managerMaxFiles_def)
  have n5: "next_ino ex_world = 5" by (simp add: ex_world_def)
  have n6: "next_ino ex_crossed_w = 6"
    by (simp add: ex_crossed_w_def append_bytes_def ex_rotated_def uploaded_def
          rotated_world_def ex_world_def)
  have live: "dir ex_crossed_w (filePath ex_manager 0) = Some 5"
    using rotated_ring_keep3(1) [OF lt, of ex_manager "dir ex_world" 5]
    by (simp add: ex_crossed_dir ex_rotated_def n5)
  show "dir ex_again_w (filePath ex_manager 0) = Some 6"
    using rotated_ring_keep3(1) [OF lt, of ex_crossed_m "dir ex_crossed_w" 6]
    by (simp add: ex_again_w_def n6 ex_crossed_paths)
  show "dir ex_again_w (filePath ex_manager 1) = Some 5"
    using rotated_ring_keep3(2) [OF lt, of ex_crossed_m "dir ex_crossed_w" 6] live
    by (simp add: ex_again_w_def n6 ex_crossed_paths)
qed

lemma ex_again_appends:
  "appends_plain ex_again_m ex_again_w [''hi'', ''ok''] =
     Return (None, ex_again_m\<lparr>current_size := 6\<rparr>,
             append_bytes (append_bytes ex_again_w 6 (''hi'' @ [CHR 0x0A])) 6
                          (''ok'' @ [CHR 0x0A]))"
  by (simp add: append_line_def file_Write_def ex_again_fields max_file_size_def)


section \<open>The conflict in the shift loop\<close>

lemma unreadable_dir_update [simp]: "unreadable (w\<lparr>dir := d\<rparr>) p = unreadable w p"
  by (simp add: unreadable_def)

lemma fileExists_unreadable_at: "unreadable w (filePath m k) \<Longrightarrow> fileExists m w k"
  by (auto simp: unreadable_def fileExists_def os_Stat_def)

lemma fileExists_unreadable_other:
  "unreadable w p \<Longrightarrow> filePath m k \<noteq> p \<Longrightarrow> fileExists m w k \<longleftrightarrow> dir w (filePath m k) \<noteq> None"
  by (auto simp: unreadable_def fileExists_def os_Stat_def split: option.splits)

lemma os_Rename_unreadable:
  "unreadable w p \<Longrightarrow> dir w old = Some i \<Longrightarrow>
   os_Rename w old new = Inr (w\<lparr>dir := (dir w)(old := None, new \<mapsto> i)\<rparr>)"
  by (simp add: unreadable_def os_Rename_def)

lemma prune_loop_above:
  "\<forall>j. n \<le> j \<and> j < managerMaxFiles \<longrightarrow>
        faults w (SysStat (filePath m j)) = None \<and> faults w (SysRemove (filePath m j)) = None
   \<Longrightarrow> prune_loop m w n = (None, w\<lparr>dir := pruned m (dir w) n\<rparr>)"
proof (induction m w n rule: prune_loop.induct)
  case (1 m w n)
  show ?case
  proof (cases "n < managerMaxFiles")
    case False
    then show ?thesis by (simp add: prune_loop.simps [of m w n] pruned_done)
  next
    case lt: True
    with "1.prems" have here: "faults w (SysStat (filePath m n)) = None"
      "faults w (SysRemove (filePath m n)) = None" by simp_all
    have above: "\<forall>j. n + 1 \<le> j \<and> j < managerMaxFiles \<longrightarrow>
        faults w (SysStat (filePath m j)) = None \<and> faults w (SysRemove (filePath m j)) = None"
      using "1.prems" by simp
    show ?thesis
    proof (cases "dir w (filePath m n)")
      case None
      with here have ex: "\<not> fileExists m w n" by (simp add: fileExists_def os_Stat_def)
      from "1.IH"(2) [OF lt ex above] lt ex None show ?thesis
        by (simp add: prune_loop.simps [of m w n] pruned_step_absent)
    next
      case (Some i)
      with here have ex: "fileExists m w n" by (simp add: fileExists_def os_Stat_def)
      have rm: "os_Remove w (filePath m n) = Inr (w\<lparr>dir := (dir w)(filePath m n := None)\<rparr>)"
        using here Some by (simp add: os_Remove_def)
      let ?D = "(dir w)(filePath m n := None)"
      have ih: "prune_loop m (w\<lparr>dir := ?D\<rparr>) (n + 1) = (None, w\<lparr>dir := pruned m ?D (n + 1)\<rparr>)"
        using "1.IH"(1) [OF lt ex rm] above by (simp add: fun_upd_def)
      have "prune_loop m w n = prune_loop m (w\<lparr>dir := ?D\<rparr>) (n + 1)"
        using lt ex rm by (simp add: prune_loop.simps [of m w n])
      then show ?thesis
        by (simp only: ih pruned_step_present [OF lt])
    qed
  qed
qed

lemma shift_loop_stuck:
  "unreadable w (filePath m (n + 1)) \<Longrightarrow> 0 \<le> n \<Longrightarrow> n + 1 \<le> k \<Longrightarrow> k < managerMaxFiles \<Longrightarrow>
   dir w (filePath m n) = Some a \<Longrightarrow> dir w (filePath m (n + 1)) = Some b \<Longrightarrow>
   dir w (filePath m (k + 1)) = None \<Longrightarrow>
   \<exists>w'. shift_loop m w k = (Some (conflict_error m (n + 1)), w')
        \<and> dir w' (filePath m n) = Some a \<and> inodes w' = inodes w"
proof (induction m w k rule: shift_loop.induct)
  case (1 m w k)
  note ur = "1.prems"(1)
  have ge: "k \<ge> 0" using "1.prems"(2,3) by simp
  have gi: "go_int (k + 1) = k + 1"
    using ge "1.prems"(4) by (intro go_int_id) (simp_all add: managerMaxFiles_def)
  have nex1: "\<not> fileExists m w (k + 1)"
    using fileExists_unreadable_other [OF ur, of m "k + 1"] "1.prems"(3,7)
    by (simp add: filePath_inj)
  have lt': "k - 1 < managerMaxFiles" using "1.prems"(4) by simp
  show ?case
  proof (cases "k = n + 1")
    case True
    have ex: "fileExists m w k" using ur True by (simp add: fileExists_unreadable_at)
    let ?D = "(dir w)(filePath m k := None, filePath m (k + 1) \<mapsto> b)"
    let ?w1 = "w\<lparr>dir := ?D\<rparr>"
    have rn: "os_Rename w (filePath m k) (filePath m (k + 1)) = Inr ?w1"
      using os_Rename_unreadable [OF ur] "1.prems"(6) True by simp
    have "shift_loop m w k = shift_loop m ?w1 (k - 1)"
      using ge ex nex1 rn by (simp add: shift_loop.simps [of m w k] gi)
    then have step: "shift_loop m w k = shift_loop m ?w1 n"
      using True by simp
    have exn: "fileExists m ?w1 n"
      using fileExists_unreadable_other [of ?w1 "filePath m (n + 1)" m n] ur "1.prems"(5) True
      by (simp add: filePath_inj)
    have gin: "go_int (n + 1) = n + 1"
      using "1.prems"(2,3,4) by (intro go_int_id) (simp_all add: managerMaxFiles_def)
    have exn1: "fileExists m ?w1 (go_int (n + 1))"
      using ur by (simp add: gin fileExists_unreadable_at)
    have "shift_loop m ?w1 n = (Some (conflict_error m (n + 1)), ?w1)"
      using "1.prems"(2) exn exn1
      by (simp add: shift_loop.simps [of m ?w1 n] conflict_error_def gin)
    with step "1.prems"(5) True show ?thesis by (simp add: filePath_inj)
  next
    case False
    with "1.prems"(3) have gt: "n + 1 \<le> k - 1" by simp
    have kne: "filePath m k \<noteq> filePath m (n + 1)" using False by (simp add: filePath_inj)
    show ?thesis
    proof (cases "dir w (filePath m k)")
      case None
      then have nex: "\<not> fileExists m w k"
        using fileExists_unreadable_other [OF ur kne] by simp
      have "\<exists>w'. shift_loop m w (k - 1) = (Some (conflict_error m (n + 1)), w')
              \<and> dir w' (filePath m n) = Some a \<and> inodes w' = inodes w"
        using "1.IH"(1) [OF ge nex ur "1.prems"(2) gt lt' "1.prems"(5,6)] None by simp
      with ge nex show ?thesis by (simp add: shift_loop.simps [of m w k])
    next
      case (Some i)
      then have ex: "fileExists m w k"
        using fileExists_unreadable_other [OF ur kne] by simp
      let ?D = "(dir w)(filePath m k := None, filePath m (k + 1) \<mapsto> i)"
      let ?w1 = "w\<lparr>dir := ?D\<rparr>"
      have rn: "os_Rename w (filePath m k) (filePath m (go_int (k + 1))) = Inr ?w1"
        using os_Rename_unreadable [OF ur] Some gi by simp
      have ex': "\<not> \<not> fileExists m w k" using ex by simp
      have nex1': "\<not> fileExists m w (go_int (k + 1))" using nex1 gi by simp
      have ur1: "unreadable ?w1 (filePath m (n + 1))" using ur by simp
      have dn: "dir ?w1 (filePath m n) = Some a"
        using "1.prems"(3,5) by (simp add: filePath_inj)
      have dn1: "dir ?w1 (filePath m (n + 1)) = Some b"
        using "1.prems"(3,6) False by (simp add: filePath_inj)
      have dk: "dir ?w1 (filePath m (k - 1 + 1)) = None" by (simp add: filePath_inj)
      have "\<exists>w'. shift_loop m ?w1 (k - 1) = (Some (conflict_error m (n + 1)), w')
              \<and> dir w' (filePath m n) = Some a \<and> inodes w' = inodes ?w1"
        using "1.IH"(2) [OF ge ex' nex1' rn ur1 "1.prems"(2) gt lt' dn dn1 dk] .
      moreover have "shift_loop m w k = shift_loop m ?w1 (k - 1)"
        using ge ex nex1' rn by (simp add: shift_loop.simps [of m w k])
      ultimately show ?thesis by simp
    qed
  qed
qed

lemma rotate_unreadable:
  assumes ur: "unreadable w (filePath m (n + 1))" and keep: "KeepFiles m = Some keep"
      and n: "0 \<le> n" "n + 1 < keep" and lt: "keep < managerMaxFiles"
      and cur: "current m = None \<or> (\<exists>h. current m = Some h \<and> \<not> h_closed h)"
      and da: "dir w (filePath m n) = Some a" and db: "dir w (filePath m (n + 1)) = Some b"
  shows "\<exists>w'. rotate m w = Return (Some (conflict_error m (n + 1)), closed_manager m, w')
             \<and> dir w' (filePath m n) = Some a \<and> inodes w' = inodes w"
proof -
  define m1 where "m1 = closed_manager m"
  have fp1: "filePath m1 = filePath m"
    by (simp add: m1_def closed_manager_def split: option.splits)
  have k1: "KeepFiles m1 = Some keep"
    using keep by (simp add: m1_def closed_manager_def split: option.splits)
  have close: "(case current m of None \<Rightarrow> (None, m)
                | Some h \<Rightarrow> (case file_Close w h of (e, h') \<Rightarrow> (e, m\<lparr>current := Some h'\<rparr>)))
               = (None, m1)"
    using cur ur by (auto simp: m1_def closed_manager_def file_Close_def unreadable_def)
  let ?w1 = "w\<lparr>dir := pruned m (dir w) keep\<rparr>"
  have "\<forall>j. keep \<le> j \<and> j < managerMaxFiles \<longrightarrow>
        faults w (SysStat (filePath m j)) = None \<and> faults w (SysRemove (filePath m j)) = None"
    using ur n by (auto simp: unreadable_def filePath_inj)
  then have "prune_loop m w keep = (None, ?w1)" by (rule prune_loop_above)
  then have prune: "prune_loop m1 w keep = (None, ?w1)"
    by (simp add: prune_loop_same_name [OF fp1])
  have gi: "go_int (keep - 1) = keep - 1"
    using n lt by (intro go_int_id) (simp_all add: managerMaxFiles_def)
  have "\<exists>w'. shift_loop m ?w1 (keep - 1) = (Some (conflict_error m (n + 1)), w')
          \<and> dir w' (filePath m n) = Some a \<and> inodes w' = inodes ?w1"
    using ur n lt da db by (intro shift_loop_stuck) (simp_all add: pruned_slot pruned_below)
  then obtain w' where
        sh: "shift_loop m ?w1 (keep - 1) = (Some (conflict_error m (n + 1)), w')"
    and d': "dir w' (filePath m n) = Some a" and i': "inodes w' = inodes w"
    by auto
  have shift: "shift_loop m1 ?w1 (go_int (keep - 1)) = (Some (conflict_error m (n + 1)), w')"
    using sh by (simp add: gi shift_loop_same_name [OF fp1])
  have "rotate m w = Return (Some (conflict_error m (n + 1)), m1, w')"
    unfolding rotate_def close by (simp add: k1 prune shift)
  with d' i' show ?thesis by (auto simp: m1_def)
qed

lemma ex_stuck_rotation:
  "rotate ex_manager ex_stuck =
     Return (Some (Errorf ''S3 file /var/log/s3/beat.1 exists when rotating would overwrite it''),
             ex_manager, ex_shifted)"
proof -
  have k: "KeepFiles ex_manager = Some 3" and c0: "current ex_manager = None"
    by (simp_all add: ex_manager_def)
  have g1: "go_int 1 = 1" by (simp add: go_int_def)
  have conflict: "shift_loop ex_manager ex_shifted 0 =
       (Some (Errorf ''S3 file /var/log/s3/beat.1 exists when rotating would overwrite it''),
        ex_shifted)"
    by (subst shift_loop.simps) (simp add: ex_stuck_slots g1 ex_paths)
  show ?thesis
    using conflict ex_stuck_prune ex_stuck_shift
    by (simp add: rotate_def k c0 go_int_def)
qed

lemma ex_stuck_unreadable: "unreadable ex_stuck (filePath ex_manager (0 + 1))"
  by (simp add: unreadable_def ex_stuck_def ex_paths)


section \<open>The claims\<close>

text \<open>
  Claim C10.  After every successful call of \<^verbatim>\<open>rotate\<close> (one that returns a nil error)
  the live byte counter is zero and the field \<^verbatim>\<open>last\<close> is the path of slot 1, whatever
  is on disk.  The witness is the first rotation in an empty directory: no file exists at
  slot 1 before or after it, and the upload step, run on that path, stores an object made
  from no bytes.
\<close>

theorem rotate_resets_counter_and_last:
  "rotate m w = Return (None, m', w') \<Longrightarrow>
   current_size m' = 0 \<and> last_file m' = filePath m 1 \<and> filePath m' 1 = filePath m 1"
  by (auto simp: rotate_def Let_def filePath_def
           split: option.splits prod.splits sum.splits res.splits)


theorem rotate_resets_counter_and_last_witness:
  "rotate ex_manager ex_world =
     Return (None,
             ex_manager\<lparr>current := Some \<lparr>h_ino = 5, h_closed = False\<rparr>,
                        current_size := 0, last_file := ''/var/log/s3/beat.1''\<rparr>,
             uploaded (ex_manager\<lparr>last_file := ''/var/log/s3/beat.1''\<rparr>)
                      (rotated_world ex_manager ex_world 3))
   \<and> current_size (ex_manager\<lparr>current := Some \<lparr>h_ino = 5, h_closed = False\<rparr>,
                        current_size := 0, last_file := ''/var/log/s3/beat.1''\<rparr>) = 0
   \<and> last_file (ex_manager\<lparr>current := Some \<lparr>h_ino = 5, h_closed = False\<rparr>,
                        current_size := 0, last_file := ''/var/log/s3/beat.1''\<rparr>)
       = filePath ex_manager 1
   \<and> dir ex_world (filePath ex_manager 1) = None
   \<and> dir (uploaded (ex_manager\<lparr>last_file := ''/var/log/s3/beat.1''\<rparr>)
                    (rotated_world ex_manager ex_world 3)) (filePath ex_manager 1) = None
   \<and> s3_objects (uploaded (ex_manager\<lparr>last_file := ''/var/log/s3/beat.1''\<rparr>)
                    (rotated_world ex_manager ex_world 3))
       = [\<lparr>o_bucket = ''logs'', o_key = ''/2016/03/07/web1_20160307T090501.000000042Z.gz'',
           o_body = Gzip []\<rparr>]"
proof -
  have aged: "rotated_dir ex_manager (dir ex_world) 3 5 (filePath ex_manager (0 + 1))
                = dir ex_world (filePath ex_manager 0)"
    by (rule rotated_dir_aged) (simp_all add: managerMaxFiles_def)
  have d0: "dir ex_world p = None" for p by (simp add: ex_world_def)
  have n: "next_ino ex_world = 5" by (simp add: ex_world_def)
  have d1: "dir (uploaded (ex_manager\<lparr>last_file := ''/var/log/s3/beat.1''\<rparr>)
                    (rotated_world ex_manager ex_world 3)) (filePath ex_manager 1) = None"
    using aged by (simp add: d0 n)
  have obj: "s3_objects (uploaded (ex_manager\<lparr>last_file := ''/var/log/s3/beat.1''\<rparr>)
                    (rotated_world ex_manager ex_world 3))
       = [\<lparr>o_bucket = ''logs'', o_key = ''/2016/03/07/web1_20160307T090501.000000042Z.gz'',
           o_body = Gzip []\<rparr>]"
    using d1 ex_key
    by (simp add: uploaded_def ex_paths rotated_world_def) (simp add: ex_world_def ex_manager_def)
  show ?thesis
    using rotate_resets_counter_and_last [OF ex_first_rotation] ex_first_rotation d1 obj
    by (simp add: d0)
qed

text \<open>
  Claim C9.  \<^verbatim>\<open>fileExists\<close> answers false exactly when the status call on the slot's
  path fails with an error that \<^verbatim>\<open>os.IsNotExist\<close> accepts; on every other failure of
  the status call it answers true.  The witness is a path whose status call is refused
  (\<open>EACCES\<close>) while no file is there: the slot counts as existing, so the prune loop
  of \<^verbatim>\<open>rotate\<close> tries to remove it and \<^verbatim>\<open>rotate\<close> returns the error of the removal.
\<close>

theorem fileExists_false_iff_not_exist:
  "(fileExists m w n = False \<longleftrightarrow>
      (\<exists>err. os_Stat w (filePath m n) = Inl err \<and> os_IsNotExist (Some err)))
   \<and> (\<forall>err. os_Stat w (filePath m n) = Inl err \<and> \<not> os_IsNotExist (Some err)
          \<longrightarrow> fileExists m w n = True)"
  by (auto simp: fileExists_def split: sum.splits)

theorem fileExists_false_iff_not_exist_witness:
  "os_Stat ex_denied (filePath ex_manager 1023)
     = Inl (PathError ''stat'' ''/var/log/s3/beat.1023'' EACCES)
   \<and> \<not> os_IsNotExist (Some (PathError ''stat'' ''/var/log/s3/beat.1023'' EACCES))
   \<and> dir ex_denied (filePath ex_manager 1023) = None
   \<and> fileExists ex_manager ex_denied 1023 = True
   \<and> rotate (ex_manager\<lparr>KeepFiles := Some 1023\<rparr>) ex_denied
       = Return (Some (PathError ''remove'' ''/var/log/s3/beat.1023'' ENOENT),
                 ex_manager\<lparr>KeepFiles := Some 1023\<rparr>, ex_denied)"
proof -
  have st: "os_Stat ex_denied (filePath ex_manager 1023)
              = Inl (PathError ''stat'' ''/var/log/s3/beat.1023'' EACCES)"
    by (simp add: os_Stat_def ex_denied_def ex_path_1023)
  have ne: "\<not> os_IsNotExist (Some (PathError ''stat'' ''/var/log/s3/beat.1023'' EACCES))"
    by simp
  have ex: "fileExists ex_manager ex_denied 1023 = True"
    using fileExists_false_iff_not_exist [of ex_manager ex_denied 1023] st ne by blast
  have ex': "fileExists (ex_manager\<lparr>KeepFiles := Some 1023\<rparr>) ex_denied 1023"
    using ex by (simp add: fileExists_def filePath_def)
  have d: "dir ex_denied p = None" for p by (simp add: ex_denied_def ex_world_def)
  have rm: "os_Remove ex_denied ''/var/log/s3/beat.1023''
              = Inl (PathError ''remove'' ''/var/log/s3/beat.1023'' ENOENT)"
    by (simp add: os_Remove_def ex_denied_def ex_world_def)
  have pr: "prune_loop (ex_manager\<lparr>KeepFiles := Some 1023\<rparr>) ex_denied 1023
              = (Some (PathError ''remove'' ''/var/log/s3/beat.1023'' ENOENT), ex_denied)"
    using ex' rm by (subst prune_loop.simps) (simp add: managerMaxFiles_def ex_path_1023')
  have "rotate (ex_manager\<lparr>KeepFiles := Some 1023\<rparr>) ex_denied
       = Return (Some (PathError ''remove'' ''/var/log/s3/beat.1023'' ENOENT),
                 ex_manager\<lparr>KeepFiles := Some 1023\<rparr>, ex_denied)"
    using pr by (simp add: rotate_def ex_manager_def)
  with st ne ex d show ?thesis by simp
qed

text \<open>
  Claim C3 (the code departs from it).  The claim is that a rejection by the blob store
  ends the upload step normally, with the error logged only.  In the source
  \<^verbatim>\<open>s3Upload\<close> logs the failure and then reads \<^verbatim>\<open>result.Location\<close> of the nil result;
  \<^verbatim>\<open>rotate\<close> calls the step directly, so the panic is the outcome of \<^verbatim>\<open>rotate\<close> and
  of the \<^verbatim>\<open>writeLine\<close> that asked for the rotation.
\<close>

theorem upload_rejection_panics:
  "s3Upload (ex_manager\<lparr>last_file := filePath ex_manager 1\<rparr>) ex_reject = Panic
   \<and> rotate ex_manager ex_reject = Panic
   \<and> writeLine ex_manager ex_reject ''hello'' = Panic"
proof -
  have up: "s3Upload m w = Panic"
    if "faults w = faults ex_reject" for m w
    using that by (intro s3Upload_rejected [where e = EIO]) (simp_all add: ex_reject_def)
  have k: "KeepFiles ex_manager = Some 3" by (simp add: ex_manager_def)
  have c: "current ex_manager = None \<or> (\<exists>h. current ex_manager = Some h \<and> \<not> h_closed h)"
    by (simp add: ex_manager_def)
  have rot: "rotate ex_manager ex_reject = Panic"
    using rotate_fs_ok [OF ex_reject_fs_ok k _ _ c]
    by (simp add: managerMaxFiles_def up)
  have sr: "shouldRotate ex_manager ex_reject = Return True"
    by (simp add: shouldRotate_def ex_manager_def)
  show ?thesis
    using rot sr by (simp add: up writeLine_def)
qed

text \<open>
  Claim C2 (the code departs from it).  The claim is that \<^verbatim>\<open>shouldRotate\<close> skips the
  time check when no file exists at slot 1.  In the source the failure of \<^verbatim>\<open>os.Lstat\<close>
  is logged and the nil \<^verbatim>\<open>FileInfo\<close> is used all the same: with an open live file below
  the size threshold and a time threshold of one second, \<^verbatim>\<open>shouldRotate\<close> panics, and
  so does the \<^verbatim>\<open>writeLine\<close> that called it.
\<close>

theorem shouldRotate_panics_without_slot_1:
  "current ex_timed = Some ex_open \<and> h_closed ex_open = False
   \<and> current_size ex_timed = 0 \<and> UploadEveryBytes ex_timed = Some 100
   \<and> UploadEverySeconds ex_timed = Some 1
   \<and> dir ex_world (filePath ex_timed 1) = None
   \<and> shouldRotate ex_timed ex_world = Panic
   \<and> writeLine ex_timed ex_world ''hello'' = Panic"
proof -
  have sr: "shouldRotate ex_timed ex_world = Panic"
    by (simp add: shouldRotate_def ex_timed_def ex_manager_def os_Lstat_def ex_world_def)
  then show ?thesis
    by (simp add: writeLine_def) (simp add: ex_timed_def ex_manager_def ex_open_def ex_world_def)
qed

text \<open>
  Claim C1 (amended).  The claim is that with three files to keep and files at the slots
  0 to 4 the rotation ends with files at exactly the slots 0, 1, 2 and 3.  The source keeps
  three files, not four: the prune loop removes every slot from 3 upwards (slots 3 and 4
  here), the shift loop renames 2 to 3, 1 to 2 and 0 to 1, a new file is created at slot 0,
  and the file now at slot 3 is removed again before the upload.  On the example, slot 3
  is empty after the rotation.
\<close>

theorem rotate_keep3_counterexample:
  "KeepFiles ex_manager = Some 3
   \<and> dir ex_world5 (filePath ex_manager 0) = Some 0
   \<and> dir ex_world5 (filePath ex_manager 1) = Some 1
   \<and> dir ex_world5 (filePath ex_manager 2) = Some 2
   \<and> dir ex_world5 (filePath ex_manager 3) = Some 3
   \<and> dir ex_world5 (filePath ex_manager 4) = Some 4
   \<and> rotate ex_manager ex_world5 =
       Return (None,
               ex_manager\<lparr>current := Some \<lparr>h_ino = 5, h_closed = False\<rparr>,
                          current_size := 0, last_file := ''/var/log/s3/beat.1''\<rparr>,
               uploaded (ex_manager\<lparr>last_file := ''/var/log/s3/beat.1''\<rparr>)
                        (rotated_world ex_manager ex_world5 3))
   \<and> dir (uploaded (ex_manager\<lparr>last_file := ''/var/log/s3/beat.1''\<rparr>)
                    (rotated_world ex_manager ex_world5 3)) (filePath ex_manager 3) = None"
  using ex_rotation5 rotated_ring_keep3(4) [of ex_manager]
  by (simp add: ex_world5_dir managerMaxFiles_def) (simp add: ex_manager_def)

text \<open>
  Claim C1 as amended: with three files to keep, files at the slots 0 to 4 and no failing
  call, the prune loop empties the slots 3 and 4 and leaves 0, 1 and 2; the shift loop
  moves 2 to 3, 1 to 2 and 0 to 1; \<^verbatim>\<open>rotate\<close> succeeds, slot 0 is a new, empty file,
  slot 1 is the old slot 0, slot 2 is the old slot 1, and of all slots below the bound
  exactly 0, 1 and 2 hold a file.
\<close>

theorem rotate_keep3_ring:
  assumes ff: "fault_free w" and keep: "KeepFiles m = Some 3"
      and cur: "current m = None \<or> (\<exists>h. current m = Some h \<and> \<not> h_closed h)"
      and occ: "\<forall>k\<in>{0, 1, 2, 3, 4}. dir w (filePath m k) \<noteq> None"
  shows "prune_loop m w 3 = (None, w\<lparr>dir := pruned m (dir w) 3\<rparr>)
         \<and> pruned m (dir w) 3 (filePath m 4) = None
         \<and> pruned m (dir w) 3 (filePath m 3) = None
         \<and> pruned m (dir w) 3 (filePath m 2) = dir w (filePath m 2)
         \<and> pruned m (dir w) 3 (filePath m 1) = dir w (filePath m 1)
         \<and> pruned m (dir w) 3 (filePath m 0) = dir w (filePath m 0)
         \<and> shift_loop m (w\<lparr>dir := pruned m (dir w) 3\<rparr>) 2
             = (None, w\<lparr>dir := shifted m (pruned m (dir w) 3) 2\<rparr>)
         \<and> shifted m (pruned m (dir w) 3) 2 (filePath m 3) = dir w (filePath m 2)
         \<and> shifted m (pruned m (dir w) 3) 2 (filePath m 2) = dir w (filePath m 1)
         \<and> shifted m (pruned m (dir w) 3) 2 (filePath m 1) = dir w (filePath m 0)
         \<and> shifted m (pruned m (dir w) 3) 2 (filePath m 0) = None
         \<and> rotate m w =
             Return (None,
                     m\<lparr>current := Some \<lparr>h_ino = next_ino w, h_closed = False\<rparr>,
                       current_size := 0, last_file := filePath m 1\<rparr>,
                     uploaded (m\<lparr>last_file := filePath m 1\<rparr>) (rotated_world m w 3))
         \<and> dir (uploaded (m\<lparr>last_file := filePath m 1\<rparr>) (rotated_world m w 3)) (filePath m 0)
             = Some (next_ino w)
         \<and> content (inodes (uploaded (m\<lparr>last_file := filePath m 1\<rparr>) (rotated_world m w 3))
                      (next_ino w)) = []
         \<and> dir (uploaded (m\<lparr>last_file := filePath m 1\<rparr>) (rotated_world m w 3)) (filePath m 1)
             = dir w (filePath m 0)
         \<and> dir (uploaded (m\<lparr>last_file := filePath m 1\<rparr>) (rotated_world m w 3)) (filePath m 2)
             = dir w (filePath m 1)
         \<and> (\<forall>n. 0 \<le> n \<and> n < managerMaxFiles \<longrightarrow>
               (dir (uploaded (m\<lparr>last_file := filePath m 1\<rparr>) (rotated_world m w 3))
                    (filePath m n) \<noteq> None) = (n \<in> {0, 1, 2}))"
proof -
  have lt: "(3::int) < managerMaxFiles" by (simp add: managerMaxFiles_def)
  have ok: "fs_ok w" using ff by (rule fault_free_fs_ok)
  let ?p = "pruned m (dir w) 3"
  have p1: "prune_loop m w 3 = (None, w\<lparr>dir := ?p\<rparr>)" using ok by (rule prune_loop_fs_ok)
  have p4: "?p (filePath m 4) = None" and p3: "?p (filePath m 3) = None"
    using lt by (simp_all add: pruned_slot managerMaxFiles_def)
  have pb: "?p (filePath m 2) = dir w (filePath m 2)" "?p (filePath m 1) = dir w (filePath m 1)"
    "?p (filePath m 0) = dir w (filePath m 0)"
    by (simp_all add: pruned_below)
  have s1: "shift_loop m (w\<lparr>dir := ?p\<rparr>) 2 = (None, w\<lparr>dir := shifted m ?p 2\<rparr>)"
    using shift_loop_fs_ok [of "w\<lparr>dir := ?p\<rparr>" 2 m] ok lt p3 by simp
  have sh: "shifted m ?p 2 (filePath m (k + 1)) = ?p (filePath m k)" if "0 \<le> k" "k \<le> 2" for k
    using shifted_slot [of ?p m 2 k] p3 that by simp
  have s3: "shifted m ?p 2 (filePath m 3) = dir w (filePath m 2)" using sh [of 2] pb by simp
  have s2: "shifted m ?p 2 (filePath m 2) = dir w (filePath m 1)" using sh [of 1] pb by simp
  have s1': "shifted m ?p 2 (filePath m 1) = dir w (filePath m 0)" using sh [of 0] pb by simp
  have s0: "shifted m ?p 2 (filePath m 0) = None"
    using shifted_zero [of ?p m 2] p3 by simp
  have r: "rotate m w =
             Return (None,
                     m\<lparr>current := Some \<lparr>h_ino = next_ino w, h_closed = False\<rparr>,
                       current_size := 0, last_file := filePath m 1\<rparr>,
                     uploaded (m\<lparr>last_file := filePath m 1\<rparr>) (rotated_world m w 3))"
    using rotate_fault_free [OF ff keep _ lt cur] by simp
  note ring = rotated_ring_keep3 [OF lt, of m "dir w" "next_ino w"]
  have fin: "(dir (uploaded (m\<lparr>last_file := filePath m 1\<rparr>) (rotated_world m w 3))
                  (filePath m n) \<noteq> None) = (n \<in> {0, 1, 2})"
    if n: "0 \<le> n" "n < managerMaxFiles" for n
  proof (cases "n < 3")
    case True
    with n have "n = 0 \<or> n = 1 \<or> n = 2" by auto
    then show ?thesis using ring occ by auto
  next
    case False
    then have "rotated_dir m (dir w) 3 (next_ino w) (filePath m n) = None"
      using n by (intro rotated_dir_beyond) simp_all
    with False show ?thesis by simp
  qed
  show ?thesis
    using p1 p4 p3 pb s1 s3 s2 s1' s0 r ring fin by simp
qed

theorem rotate_keep3_ring_witness:
  "fault_free ex_world5 \<and> KeepFiles ex_manager = Some 3 \<and> current ex_manager = None
   \<and> dir ex_world5 (filePath ex_manager 0) = Some 0
   \<and> dir ex_world5 (filePath ex_manager 1) = Some 1
   \<and> dir ex_world5 (filePath ex_manager 2) = Some 2
   \<and> dir ex_world5 (filePath ex_manager 3) = Some 3
   \<and> dir ex_world5 (filePath ex_manager 4) = Some 4
   \<and> pruned ex_manager (dir ex_world5) 3 (filePath ex_manager 4) = None
   \<and> pruned ex_manager (dir ex_world5) 3 (filePath ex_manager 3) = None
   \<and> shifted ex_manager (pruned ex_manager (dir ex_world5) 3) 2 (filePath ex_manager 3) = Some 2
   \<and> shifted ex_manager (pruned ex_manager (dir ex_world5) 3) 2 (filePath ex_manager 2) = Some 1
   \<and> shifted ex_manager (pruned ex_manager (dir ex_world5) 3) 2 (filePath ex_manager 1) = Some 0
   \<and> rotate ex_manager ex_world5 =
       Return (None,
               ex_manager\<lparr>current := Some \<lparr>h_ino = 5, h_closed = False\<rparr>,
                          current_size := 0, last_file := ''/var/log/s3/beat.1''\<rparr>,
               uploaded (ex_manager\<lparr>last_file := ''/var/log/s3/beat.1''\<rparr>)
                        (rotated_world ex_manager ex_world5 3))
   \<and> dir (uploaded (ex_manager\<lparr>last_file := ''/var/log/s3/beat.1''\<rparr>)
                    (rotated_world ex_manager ex_world5 3)) (filePath ex_manager 0) = Some 5
   \<and> dir (uploaded (ex_manager\<lparr>last_file := ''/var/log/s3/beat.1''\<rparr>)
                    (rotated_world ex_manager ex_world5 3)) (filePath ex_manager 1) = Some 0
   \<and> dir (uploaded (ex_manager\<lparr>last_file := ''/var/log/s3/beat.1''\<rparr>)
                    (rotated_world ex_manager ex_world5 3)) (filePath ex_manager 2) = Some 1"
proof -
  have k: "KeepFiles ex_manager = Some 3" and c0: "current ex_manager = None"
    by (simp_all add: ex_manager_def)
  have c: "current ex_manager = None \<or> (\<exists>h. current ex_manager = Some h \<and> \<not> h_closed h)"
    using c0 by simp
  have occ: "\<forall>k\<in>{0, 1, 2, 3, 4}. dir ex_world5 (filePath ex_manager k) \<noteq> None"
    by (simp add: ex_world5_dir)
  have n: "next_ino ex_world5 = 5" by (simp add: ex_world5_def ex_world_def)
  show ?thesis
    using rotate_keep3_ring [OF ex_world5_fault_free k c occ] ex_world5_fault_free k c0
    by (simp add: ex_world5_dir_str n ex_paths)
qed

text \<open>
  Claim C4 (amended).  The claim is that \<^verbatim>\<open>rotate\<close> fails with the conflict error
  whenever some slot \<open>n\<close> below the last one and its successor both hold a file at the
  start.  That is the ordinary state of the ring, and the shift loop runs from the highest
  slot down so that the successor has been moved away when slot \<open>n\<close> is reached: on the
  example (files at 0 to 4, three to keep) the rotation succeeds and slot 0 is renamed
  to slot 1.
\<close>

theorem rotate_conflict_counterexample:
  "KeepFiles ex_manager = Some 3
   \<and> dir ex_world5 (filePath ex_manager 0) = Some 0
   \<and> dir ex_world5 (filePath ex_manager (0 + 1)) = Some 1
   \<and> rotate ex_manager ex_world5 =
       Return (None,
               ex_manager\<lparr>current := Some \<lparr>h_ino = 5, h_closed = False\<rparr>,
                          current_size := 0, last_file := ''/var/log/s3/beat.1''\<rparr>,
               uploaded (ex_manager\<lparr>last_file := ''/var/log/s3/beat.1''\<rparr>)
                        (rotated_world ex_manager ex_world5 3))
   \<and> dir (uploaded (ex_manager\<lparr>last_file := ''/var/log/s3/beat.1''\<rparr>)
                    (rotated_world ex_manager ex_world5 3)) (filePath ex_manager 0) = Some 5
   \<and> dir (uploaded (ex_manager\<lparr>last_file := ''/var/log/s3/beat.1''\<rparr>)
                    (rotated_world ex_manager ex_world5 3)) (filePath ex_manager 1) = Some 0"
  using ex_rotation5 rotated_ring_keep3(1,2) [of ex_manager "dir ex_world5" 5]
  by (simp add: ex_world5_dir managerMaxFiles_def) (simp add: ex_manager_def ex_world5_def ex_world_def)

text \<open>
  Claim C4 as amended.  Two occupied neighbour slots do not make \<^verbatim>\<open>rotate\<close> fail: when
  no call fails, \<^verbatim>\<open>rotate\<close> succeeds whatever files there are, and every slot below the
  last kept one is moved to its successor.  \<^verbatim>\<open>rotate\<close> fails with the conflict error
  when, in addition, slot \<open>n + 1\<close> is still reported as existing once the shift loop
  reaches slot \<open>n\<close>: for every starting state in which the slots \<open>n\<close> and \<open>n + 1\<close>
  (with \<open>n + 1\<close> below the number of files to keep) both hold a file and the status of
  slot \<open>n + 1\<close> cannot be read, \<^verbatim>\<open>rotate\<close> returns the conflict error that names slot
  \<open>n + 1\<close>, and the file at slot \<open>n\<close> is where and what it was.
\<close>

theorem rotate_conflict:
  "(unreadable w (filePath m (n + 1)) \<and> KeepFiles m = Some keep
      \<and> 0 \<le> n \<and> n + 1 < keep \<and> keep < managerMaxFiles
      \<and> (current m = None \<or> (\<exists>h. current m = Some h \<and> \<not> h_closed h))
      \<and> dir w (filePath m n) = Some a \<and> dir w (filePath m (n + 1)) = Some b \<longrightarrow>
      (\<exists>w'. rotate m w = Return (Some (conflict_error m (n + 1)), closed_manager m, w')
            \<and> dir w' (filePath m n) = Some a \<and> inodes w' = inodes w))
   \<and> (fault_free w \<and> KeepFiles m = Some keep \<and> 0 < keep \<and> keep < managerMaxFiles
        \<and> (current m = None \<or> (\<exists>h. current m = Some h \<and> \<not> h_closed h)) \<longrightarrow>
      rotate m w =
        Return (None,
                m\<lparr>current := Some \<lparr>h_ino = next_ino w, h_closed = False\<rparr>,
                  current_size := 0, last_file := filePath m 1\<rparr>,
                uploaded (m\<lparr>last_file := filePath m 1\<rparr>) (rotated_world m w keep))
      \<and> (\<forall>k. 0 \<le> k \<and> k + 1 < keep \<longrightarrow>
            dir (uploaded (m\<lparr>last_file := filePath m 1\<rparr>) (rotated_world m w keep))
                (filePath m (k + 1)) = dir w (filePath m k)))"
proof (intro conjI impI)
  assume "unreadable w (filePath m (n + 1)) \<and> KeepFiles m = Some keep
      \<and> 0 \<le> n \<and> n + 1 < keep \<and> keep < managerMaxFiles
      \<and> (current m = None \<or> (\<exists>h. current m = Some h \<and> \<not> h_closed h))
      \<and> dir w (filePath m n) = Some a \<and> dir w (filePath m (n + 1)) = Some b"
  then show "\<exists>w'. rotate m w = Return (Some (conflict_error m (n + 1)), closed_manager m, w')
            \<and> dir w' (filePath m n) = Some a \<and> inodes w' = inodes w"
    by (elim conjE) (rule rotate_unreadable; assumption)
next
  assume b: "fault_free w \<and> KeepFiles m = Some keep \<and> 0 < keep \<and> keep < managerMaxFiles
        \<and> (current m = None \<or> (\<exists>h. current m = Some h \<and> \<not> h_closed h))"
  then show "rotate m w =
        Return (None,
                m\<lparr>current := Some \<lparr>h_ino = next_ino w, h_closed = False\<rparr>,
                  current_size := 0, last_file := filePath m 1\<rparr>,
                uploaded (m\<lparr>last_file := filePath m 1\<rparr>) (rotated_world m w keep))"
    by (intro rotate_fault_free) simp_all
  from b show "\<forall>k. 0 \<le> k \<and> k + 1 < keep \<longrightarrow>
            dir (uploaded (m\<lparr>last_file := filePath m 1\<rparr>) (rotated_world m w keep))
                (filePath m (k + 1)) = dir w (filePath m k)"
    by (simp add: rotated_dir_aged)
qed

theorem rotate_conflict_witness:
  "unreadable ex_stuck (filePath ex_manager (0 + 1))
   \<and> KeepFiles ex_manager = Some 3 \<and> current ex_manager = None
   \<and> dir ex_stuck (filePath ex_manager 0) = Some 0
   \<and> dir ex_stuck (filePath ex_manager (0 + 1)) = Some 1
   \<and> rotate ex_manager ex_stuck =
       Return (Some (Errorf ''S3 file /var/log/s3/beat.1 exists when rotating would overwrite it''),
               ex_manager, ex_shifted)
   \<and> dir ex_shifted (filePath ex_manager 0) = Some 0
   \<and> inodes ex_shifted = inodes ex_stuck
   \<and> fault_free ex_world5
   \<and> dir ex_world5 (filePath ex_manager 0) = Some 0
   \<and> dir ex_world5 (filePath ex_manager 1) = Some 1
   \<and> rotate ex_manager ex_world5 =
       Return (None,
               ex_manager\<lparr>current := Some \<lparr>h_ino = 5, h_closed = False\<rparr>,
                          current_size := 0, last_file := ''/var/log/s3/beat.1''\<rparr>,
               uploaded (ex_manager\<lparr>last_file := ''/var/log/s3/beat.1''\<rparr>)
                        (rotated_world ex_manager ex_world5 3))
   \<and> dir (uploaded (ex_manager\<lparr>last_file := ''/var/log/s3/beat.1''\<rparr>)
                    (rotated_world ex_manager ex_world5 3)) (filePath ex_manager 1) = Some 0
   \<and> dir (uploaded (ex_manager\<lparr>last_file := ''/var/log/s3/beat.1''\<rparr>)
                    (rotated_world ex_manager ex_world5 3)) (filePath ex_manager 2) = Some 1"
proof -
  have k: "KeepFiles ex_manager = Some 3" and c0: "current ex_manager = None"
    by (simp_all add: ex_manager_def)
  have n: "next_ino ex_world5 = 5" by (simp add: ex_world5_def ex_world_def)
  have d0: "dir ex_stuck (filePath ex_manager 0) = Some 0"
    and d1: "dir ex_stuck (filePath ex_manager (0 + 1)) = Some 1"
    by (simp_all add: ex_stuck_paths)
  note stuck = rotate_conflict [of ex_stuck ex_manager 0 3 0 1]
  have "\<exists>w'. rotate ex_manager ex_stuck
               = Return (Some (conflict_error ex_manager (0 + 1)), closed_manager ex_manager, w')
             \<and> dir w' (filePath ex_manager 0) = Some 0 \<and> inodes w' = inodes ex_stuck"
    using stuck ex_stuck_unreadable k c0 d0 d1 by (simp add: managerMaxFiles_def)
  then have left: "dir ex_shifted (filePath ex_manager 0) = Some 0"
    "inodes ex_shifted = inodes ex_stuck"
    using ex_stuck_rotation by auto
  note ring = rotate_conflict [of ex_world5 ex_manager 0 3 0 1]
  have both: "rotate ex_manager ex_world5 =
        Return (None,
                ex_manager\<lparr>current := Some \<lparr>h_ino = next_ino ex_world5, h_closed = False\<rparr>,
                  current_size := 0, last_file := filePath ex_manager 1\<rparr>,
                uploaded (ex_manager\<lparr>last_file := filePath ex_manager 1\<rparr>)
                         (rotated_world ex_manager ex_world5 3))
      \<and> (\<forall>k. 0 \<le> k \<and> k + 1 < 3 \<longrightarrow>
            dir (uploaded (ex_manager\<lparr>last_file := filePath ex_manager 1\<rparr>)
                          (rotated_world ex_manager ex_world5 3))
                (filePath ex_manager (k + 1)) = dir ex_world5 (filePath ex_manager k))"
    using ring ex_world5_fault_free k c0 by (simp add: managerMaxFiles_def)
  then have aged: "dir (uploaded (ex_manager\<lparr>last_file := filePath ex_manager 1\<rparr>)
                          (rotated_world ex_manager ex_world5 3))
                (filePath ex_manager (k + 1)) = dir ex_world5 (filePath ex_manager k)"
    if "0 \<le> k" "k + 1 < 3" for k using that by blast
  have part2: "rotate ex_manager ex_world5 =
       Return (None,
               ex_manager\<lparr>current := Some \<lparr>h_ino = 5, h_closed = False\<rparr>,
                          current_size := 0, last_file := ''/var/log/s3/beat.1''\<rparr>,
               uploaded (ex_manager\<lparr>last_file := ''/var/log/s3/beat.1''\<rparr>)
                        (rotated_world ex_manager ex_world5 3))
   \<and> dir (uploaded (ex_manager\<lparr>last_file := ''/var/log/s3/beat.1''\<rparr>)
                    (rotated_world ex_manager ex_world5 3)) (filePath ex_manager 1) = Some 0
   \<and> dir (uploaded (ex_manager\<lparr>last_file := ''/var/log/s3/beat.1''\<rparr>)
                    (rotated_world ex_manager ex_world5 3)) (filePath ex_manager 2) = Some 1"
    using both aged [of 0] aged [of 1] by (simp add: n ex_paths ex_world5_dir_str)
  show ?thesis
    using ex_stuck_unreadable k c0 d0 d1 ex_stuck_rotation left ex_world5_fault_free part2
    by (simp add: ex_world5_dir)
qed

text \<open>
  Claim C6.  Start from a manager without a live file (as at start-up), or from one whose
  counter is the length of its live file.  After every sequence of appends that all
  succeed, the counter \<^verbatim>\<open>current_size\<close> is the number of bytes appended since the last
  append that rotated, and these bytes are the content of the live file.  (A write that
  succeeds never takes a file beyond the largest file offset, so the 64-bit counter does
  not wrap.)
\<close>

theorem current_size_counts_bytes_written:
  assumes start: "tracked m w acc \<or> (current m = None \<and> current_size m = 0 \<and> acc = [])"
      and run: "writeLines m w ls = Return (None, m', w')"
  shows "unat (current_size m') = length (since_rotation m w ls acc)
         \<and> live_bytes m' w' = since_rotation m w ls acc"
  using writeLines_tracks [OF run start]
  by (auto simp: tracked_def live_bytes_def)

theorem current_size_counts_bytes_written_witness:
  "current ex_manager = None \<and> current_size ex_manager = 0
   \<and> writeLines ex_manager ex_world [''hello'', ''hi''] =
       Return (None, ex_live\<lparr>current_size := 9\<rparr>,
               append_bytes (append_bytes ex_rotated 5 (''hello'' @ [CHR 0x0A])) 5
                            (''hi'' @ [CHR 0x0A]))
   \<and> since_rotation ex_manager ex_world [''hello'', ''hi''] []
       = ''hello'' @ [CHR 0x0A] @ ''hi'' @ [CHR 0x0A]
   \<and> unat (current_size (ex_live\<lparr>current_size := 9\<rparr>)) = 9
   \<and> live_bytes (ex_live\<lparr>current_size := 9\<rparr>)
        (append_bytes (append_bytes ex_rotated 5 (''hello'' @ [CHR 0x0A])) 5
                      (''hi'' @ [CHR 0x0A]))
       = ''hello'' @ [CHR 0x0A] @ ''hi'' @ [CHR 0x0A]"
proof -
  have st: "current ex_manager = None" "current_size ex_manager = 0"
    by (simp_all add: ex_manager_def)
  have w1: "writeLine ex_manager ex_world ''hello'' =
              Return (None, ex_live\<lparr>current_size := 6\<rparr>,
                      append_bytes ex_rotated 5 (''hello'' @ [CHR 0x0A]))"
    using ex_start_write(2) [of "''hello''"] by (simp add: max_file_size_def)
  have s2: "shouldRotate (ex_live\<lparr>current_size := 6\<rparr>)
              (append_bytes ex_rotated 5 (''hello'' @ [CHR 0x0A])) = Return False"
    by (rule ex_live_write(1) [where l = "''hi''"])
       (simp_all add: ex_rotated_fields max_file_size_def)
  have w2: "writeLine (ex_live\<lparr>current_size := 6\<rparr>)
              (append_bytes ex_rotated 5 (''hello'' @ [CHR 0x0A])) ''hi'' =
              Return (None, ex_live\<lparr>current_size := 9\<rparr>,
                      append_bytes (append_bytes ex_rotated 5 (''hello'' @ [CHR 0x0A])) 5
                                   (''hi'' @ [CHR 0x0A]))"
    using ex_live_write(2) [of 6 "append_bytes ex_rotated 5 (''hello'' @ [CHR 0x0A])" "''hi''"]
    by (simp add: ex_rotated_fields max_file_size_def)
  have run: "writeLines ex_manager ex_world [''hello'', ''hi''] =
       Return (None, ex_live\<lparr>current_size := 9\<rparr>,
               append_bytes (append_bytes ex_rotated 5 (''hello'' @ [CHR 0x0A])) 5
                            (''hi'' @ [CHR 0x0A]))"
    using w1 w2 by simp
  have sr: "since_rotation ex_manager ex_world [''hello'', ''hi''] []
              = ''hello'' @ [CHR 0x0A] @ ''hi'' @ [CHR 0x0A]"
    using ex_start_write(1) [of "''hello''"] w1 w2 s2 by (simp add: max_file_size_def)
  have start: "tracked ex_manager ex_world []
               \<or> (current ex_manager = None \<and> current_size ex_manager = 0 \<and> [] = ([] :: string))"
    using st by simp
  from current_size_counts_bytes_written [OF start run] st run sr show ?thesis
    by simp
qed

text \<open>
  Claim C5 (amended).  The claim is that with a size threshold of 100 bytes the rotation
  is triggered at the write whose bytes take the cumulative size across 100.  The source
  decides before it writes: \<^verbatim>\<open>writeLine\<close> asks \<^verbatim>\<open>shouldRotate\<close> first, and the counter
  is still below 100 then.  On the example a single line of 100 bytes (101 with the
  newline) is appended to the fresh live file, and no rotation occurs.
\<close>

theorem rotation_at_crossing_write_counterexample:
  "rotate ex_manager ex_world = Return (None, ex_live, ex_rotated)
   \<and> UploadEveryBytes ex_live = Some 100 \<and> UploadEverySeconds ex_live = Some 0
   \<and> current_size ex_live = 0
   \<and> writeLines ex_live ex_rotated [replicate 100 (CHR ''x'')] =
       Return (None, ex_live\<lparr>current_size := 101\<rparr>,
               append_bytes ex_rotated 5 (replicate 100 (CHR ''x'') @ [CHR 0x0A]))
   \<and> rotations ex_live ex_rotated [replicate 100 (CHR ''x'')] = [False]"
proof -
  have s1: "shouldRotate ex_live ex_rotated = Return False"
    using ex_live_write(1) [of 0 ex_rotated "replicate 100 (CHR ''x'')"]
    by (simp add: ex_rotated_fields max_file_size_def ex_live_id)
  have w1: "writeLine ex_live ex_rotated (replicate 100 (CHR ''x'')) =
              Return (None, ex_live\<lparr>current_size := 101\<rparr>,
                      append_bytes ex_rotated 5 (replicate 100 (CHR ''x'') @ [CHR 0x0A]))"
    using ex_live_write(2) [of 0 ex_rotated "replicate 100 (CHR ''x'')"]
    by (simp add: ex_rotated_fields max_file_size_def ex_live_id)
  show ?thesis
    using s1 w1 by (simp add: ex_first ex_live_fields)
qed

text \<open>
  Claim C5 as amended: after a rotation, with a size threshold of 100 bytes and the time
  check off, take lines whose cumulative size is below 100 before the line \<open>l\<close> and at
  least 100 with it.  Rotation occurs exactly once, at the first write after the crossing
  one: every write up to and including the crossing write is a plain append to the live
  file (no rotation); the next write \<open>l'\<close> runs \<^verbatim>\<open>rotate\<close> and appends to the new live
  file; and the writes after it are plain appends again, as long as the size written since
  that rotation is below 100 before each of them.
\<close>

theorem rotation_once_after_crossing:
  assumes fresh: "rotate m0 w0 = Return (None, m, w)"
      and cfg: "UploadEveryBytes m = Some 100" "UploadEverySeconds m = Some s" "s \<le> 0"
      and below: "(\<Sum>x\<leftarrow>ls. length x + 1) < 100"
      and cross: "100 \<le> (\<Sum>x\<leftarrow>ls @ [l]. length x + 1)"
      and run: "writeLines m w (ls @ [l]) = Return (None, m', w')"
      and rot: "rotate m' w' = Return (None, m2, w2)"
      and after: "rest \<noteq> [] \<longrightarrow> length l' + 1 + (\<Sum>x\<leftarrow>butlast rest. length x + 1) < 100"
  shows "writeLines m w (ls @ [l]) = appends_plain m w (ls @ [l])
         \<and> writeLine m' w' l' = append_line m2 w2 l'
         \<and> writeLines m' w' (l' # rest) = appends_plain m2 w2 (l' # rest)"
proof -
  from rotate_live [OF fresh] have t0: "tracked m w []"
    by (auto simp: tracked_def live_bytes_def)
  have b: "ls @ [l] \<noteq> [] \<longrightarrow>
             length ([] :: string) + (\<Sum>x\<leftarrow>butlast (ls @ [l]). length x + 1)
               < unat (100 :: 64 word)"
    using below by simp
  have plain1: "writeLines m w (ls @ [l]) = appends_plain m w (ls @ [l])"
    using t0 cfg b by (rule plain_below_threshold)
  from no_rotation_below_threshold [OF run t0 cfg b]
  have t: "tracked m' w' ([] @ concat (map (\<lambda>x. x @ [CHR 0x0A]) (ls @ [l])))"
    and c: "UploadEveryBytes m' = Some 100" "UploadEverySeconds m' = Some s"
    by simp_all
  have len: "length (concat (map (\<lambda>x. x @ [CHR 0x0A]) xs)) = (\<Sum>x\<leftarrow>xs. length x + 1)"
    for xs :: "string list"
    by (induction xs) simp_all
  from t have cur: "current m' \<noteq> None"
    and sz: "unat (current_size m') = (\<Sum>x\<leftarrow>ls @ [l]. length x + 1)"
    using len [of "ls @ [l]"] by (simp_all add: tracked_def)
  have "(100 :: 64 word) \<le> current_size m'"
    using cross sz by (simp add: word_le_nat_alt)
  with shouldRotate_size_only [OF cur c cfg(3), of w']
  have due: "shouldRotate m' w' = Return True" by simp
  have step: "writeLine m' w' l' = append_line m2 w2 l'"
    using due rot by (rule writeLine_rotating)
  from rotate_live [OF rot] c
  have c2: "UploadEveryBytes m2 = Some 100" "UploadEverySeconds m2 = Some s" by auto
  have tail: "writeLines m' w' (l' # rest) = appends_plain m2 w2 (l' # rest)"
  proof (cases "append_line m2 w2 l'")
    case Panic
    with step show ?thesis by simp
  next
    case (Return r)
    obtain e m3 w3 where r: "r = (e, m3, w3)" by (cases r)
    show ?thesis
    proof (cases e)
      case (Some err)
      with Return r step show ?thesis by simp
    next
      case None
      with Return r step have wl: "writeLine m' w' l' = Return (None, m3, w3)" by simp
      have t3: "tracked m3 w3 (l' @ [CHR 0x0A])"
        using writeLine_tracks [OF wl due, of "[]"] by simp
      have c3: "UploadEveryBytes m3 = Some 100" "UploadEverySeconds m3 = Some s"
        using writeLine_keeps_config [OF wl] c by simp_all
      have b3: "rest \<noteq> [] \<longrightarrow>
                  length (l' @ [CHR 0x0A]) + (\<Sum>x\<leftarrow>butlast rest. length x + 1)
                    < unat (100 :: 64 word)"
        using after by simp
      have "writeLines m3 w3 rest = appends_plain m3 w3 rest"
        using t3 c3 cfg(3) b3 by (rule plain_below_threshold)
      with wl Return r None show ?thesis by simp
    qed
  qed
  from plain1 step tail show ?thesis by simp
qed

theorem rotation_once_after_crossing_witness:
  "rotate ex_manager ex_world = Return (None, ex_live, ex_rotated)
   \<and> UploadEveryBytes ex_live = Some 100 \<and> UploadEverySeconds ex_live = Some 0
   \<and> (\<Sum>x\<leftarrow>[''hello'']. length x + 1) < 100
   \<and> 100 \<le> (\<Sum>x\<leftarrow>[''hello''] @ [replicate 100 (CHR ''x'')]. length x + 1)
   \<and> writeLines ex_live ex_rotated ([''hello''] @ [replicate 100 (CHR ''x'')])
       = Return (None, ex_crossed_m, ex_crossed_w)
   \<and> rotate ex_crossed_m ex_crossed_w = Return (None, ex_again_m, ex_again_w)
   \<and> length ''hi'' + 1 + (\<Sum>x\<leftarrow>butlast [''ok'']. length x + 1) < 100
   \<and> writeLines ex_live ex_rotated ([''hello''] @ [replicate 100 (CHR ''x'')])
       = appends_plain ex_live ex_rotated ([''hello''] @ [replicate 100 (CHR ''x'')])
   \<and> writeLine ex_crossed_m ex_crossed_w ''hi'' = append_line ex_again_m ex_again_w ''hi''
   \<and> writeLines ex_crossed_m ex_crossed_w [''hi'', ''ok'']
       = Return (None, ex_again_m\<lparr>current_size := 6\<rparr>,
                 append_bytes (append_bytes ex_again_w 6 (''hi'' @ [CHR 0x0A])) 6
                              (''ok'' @ [CHR 0x0A]))
   \<and> dir ex_crossed_w (filePath ex_manager 0) = Some 5
   \<and> dir ex_again_w (filePath ex_manager 1) = Some 5
   \<and> dir ex_again_w (filePath ex_manager 0) = Some 6"
proof -
  have below: "(\<Sum>x\<leftarrow>[''hello'']. length x + 1) < 100" by simp
  have cross: "100 \<le> (\<Sum>x\<leftarrow>[''hello''] @ [replicate 100 (CHR ''x'')]. length x + 1)" by simp
  have after: "[''ok''] \<noteq> [] \<longrightarrow> length ''hi'' + 1 + (\<Sum>x\<leftarrow>butlast [''ok'']. length x + 1) < 100"
    by simp
  have s: "(0 :: int) \<le> 0" by simp
  have lt: "(3::int) < managerMaxFiles" by (simp add: managerMaxFiles_def)
  have live: "dir ex_crossed_w (filePath ex_manager 0) = Some 5"
    using rotated_ring_keep3(1) [OF lt, of ex_manager "dir ex_world" 5]
    by (simp add: ex_crossed_dir ex_rotated_def) (simp add: ex_world_def)
  note once = rotation_once_after_crossing
         [OF ex_first ex_live_fields(3) ex_live_fields(4) s below cross ex_crossed_run
             ex_crossed_rotation after]
  have a: "writeLines ex_live ex_rotated ([''hello''] @ [replicate 100 (CHR ''x'')])
       = appends_plain ex_live ex_rotated ([''hello''] @ [replicate 100 (CHR ''x'')])"
    using once by (rule conjunct1)
  have b: "writeLine ex_crossed_m ex_crossed_w ''hi'' = append_line ex_again_m ex_again_w ''hi''"
    using once by blast
  have "writeLines ex_crossed_m ex_crossed_w [''hi'', ''ok'']
          = appends_plain ex_again_m ex_again_w [''hi'', ''ok'']"
    using once by blast
  then have c: "writeLines ex_crossed_m ex_crossed_w [''hi'', ''ok'']
       = Return (None, ex_again_m\<lparr>current_size := 6\<rparr>,
                 append_bytes (append_bytes ex_again_w 6 (''hi'' @ [CHR 0x0A])) 6
                              (''ok'' @ [CHR 0x0A]))"
    using ex_again_appends by (rule trans)
  have after': "length ''hi'' + 1 + (\<Sum>x\<leftarrow>butlast [''ok'']. length x + 1) < 100" by simp
  note f = ex_live_fields(3) ex_live_fields(4) ex_again_ring(2) ex_again_ring(1)
  show ?thesis
    by (intro conjI) (fact ex_first f below cross ex_crossed_run ex_crossed_rotation
                           after' a b c live)+
qed

end
